theory Spec2Isabelle
  imports Complex_Main "HOL-Library.Log_Nat" "HOL-Library.Sublist" "HOL-Library.Multiset"
begin

section \<open>Python values\<close>

text \<open>
  Python integers are unbounded: \<^typ>\<open>int\<close>. A Python \<^verbatim>\<open>float\<close> is an IEEE 754 binary64
  number. Its finite values are rationals, so a float is modelled as a \<^typ>\<open>rat\<close>, and every
  floating-point operation returns the exact result rounded to the nearest number with a
  53-bit significand, ties to even (\<open>fl\<close>). The exponent range is not bounded in the model:
  overflow to infinity and subnormal numbers (magnitudes above about \<open>1.8e308\<close> or below
  about \<open>2.2e-308\<close>) are outside it.
\<close>

text \<open>
  Exceptions are values. \<open>OtherError\<close> stands for any other subclass of \<^verbatim>\<open>Exception\<close> raised
  by an external collaborator; it carries the text \<^verbatim>\<open>str(e)\<close>.
\<close>

datatype py_error =
    ZeroDivisionError
  | IndexError
  | KeyError string
  | ValueError string
  | TypeError string
  | RuntimeError string
  | UnicodeDecodeError string
  | OtherError string

text \<open>\<^verbatim>\<open>str(e)\<close>.\<close>

fun error_message :: "py_error \<Rightarrow> string" where
  "error_message ZeroDivisionError = ''float division by zero''"
| "error_message IndexError = ''list index out of range''"
| "error_message (KeyError k) = [CHR 0x27] @ k @ [CHR 0x27]"
| "error_message (ValueError m) = m"
| "error_message (TypeError m) = m"
| "error_message (RuntimeError m) = m"
| "error_message (UnicodeDecodeError m) = m"
| "error_message (OtherError m) = m"

definition round_half_even :: "rat \<Rightarrow> int" where
  "round_half_even y =
     (let n = \<lfloor>y\<rfloor>; r = y - of_int n
      in if r < 1/2 then n
         else if 1/2 < r then n + 1
         else if even n then n else n + 1)"

text \<open>\<open>ilog2 x\<close> is the binary exponent of a positive rational: \<open>2^e \<le> x < 2^(e+1)\<close>.\<close>

definition ilog2 :: "rat \<Rightarrow> int" where
  "ilog2 x =
     (if 1 \<le> x then int (floorlog 2 (nat \<lfloor>x\<rfloor>)) - 1
      else - int (floorlog 2 (nat (\<lceil>1 / x\<rceil> - 1))))"

definition fl :: "rat \<Rightarrow> rat" where
  "fl x =
     (if x = 0 then 0
      else let ulp = 2 powi (ilog2 \<bar>x\<bar> - 52)
           in of_int (round_half_even (x / ulp)) * ulp)"

text \<open>The floats: the rationals with a significand of at most 53 bits.\<close>

definition is_float :: "rat \<Rightarrow> bool" where
  "is_float x = (\<exists>m k. \<bar>m\<bar> < 2 ^ 53 \<and> x = of_int m * 2 powi k)"

text \<open>\<^verbatim>\<open>float(i)\<close>, the conversion Python applies to an int operand of a float operation.\<close>

definition float_of_int :: "int \<Rightarrow> rat" where
  "float_of_int i = fl (of_int i)"

text \<open>\<^verbatim>\<open>int(x)\<close> on a float truncates toward zero.\<close>

definition py_int :: "rat \<Rightarrow> int" where
  "py_int x = (if 0 \<le> x then \<lfloor>x\<rfloor> else \<lceil>x\<rceil>)"

text \<open>Decimal rendering of a non-negative integer, as \<^verbatim>\<open>str\<close> and f-strings produce it.\<close>

definition digit_char :: "nat \<Rightarrow> char" where
  "digit_char d = ''0123456789'' ! d"

function string_of_nat :: "nat \<Rightarrow> string" where
  "string_of_nat n =
     (if n < 10 then [digit_char n]
      else string_of_nat (n div 10) @ [digit_char (n mod 10)])"
  by pat_completeness auto
termination
  by (relation "measure id") auto

text \<open>The format \<^verbatim>\<open>{i:03d}\<close> for \<open>i \<ge> 0\<close>: decimal, zero-padded to width 3.\<close>

definition fmt_03d :: "int \<Rightarrow> string" where
  "fmt_03d i =
     (let s = string_of_nat (nat i)
      in replicate (3 - length s) CHR ''0'' @ s)"

text \<open>\<^verbatim>\<open>os.path.join(a, b)\<close> for a relative second component.\<close>

definition path_join :: "string \<Rightarrow> string \<Rightarrow> string" where
  "path_join a b =
     (if a = [] \<or> last a = CHR ''/'' then a @ b else a @ ''/'' @ b)"

section \<open>Data structures of the render engine\<close>

record video_metadata =
  vm_duration :: rat
  vm_width :: int
  vm_height :: int
  vm_fps :: rat
  vm_codec :: string
  vm_has_audio :: bool

record chunk_task =
  chunk_id :: int
  start :: rat
  duration :: rat
  input_path :: string
  output_path :: string

section \<open>Chunk planning\<close>

text \<open>
  \<^verbatim>\<open>plan_chunks(input_path, duration, num_chunks, temp_dir)\<close>. The division by
  \<^verbatim>\<open>num_chunks\<close> raises for 0; \<^verbatim>\<open>range(num_chunks)\<close> is empty for a negative count.
\<close>

definition plan_chunks :: "string \<Rightarrow> rat \<Rightarrow> int \<Rightarrow> string \<Rightarrow> py_error + chunk_task list" where
  "plan_chunks inp dur num_chunks temp_dir =
     (if num_chunks = 0 then Inl ZeroDivisionError
      else
        let chunk_duration = fl (dur / float_of_int num_chunks)
        in Inr (map (\<lambda>i.
                  let st = fl (float_of_int i * chunk_duration);
                      chunk_dur = (if i < num_chunks - 1 then chunk_duration
                                   else fl (dur - st))
                  in \<lparr>chunk_id = i, start = st, duration = chunk_dur,
                      input_path = inp,
                      output_path = path_join temp_dir (''chunk_'' @ fmt_03d i @ ''.mp4'')\<rparr>)
                [0 .. num_chunks - 1]))"

text \<open>The tasks of a successful plan (no tasks when planning raised).\<close>

definition planned :: "py_error + chunk_task list \<Rightarrow> chunk_task list" where
  "planned r = (case r of Inl _ \<Rightarrow> [] | Inr ts \<Rightarrow> ts)"

text \<open>
  The intervals \<open>[start, start + duration)\<close> of a task list, read as sets of rationals, tile
  \<open>[b, e)\<close> with no gap and no overlap: each starts where the previous one ended.
\<close>

fun tiles :: "rat \<Rightarrow> rat \<Rightarrow> chunk_task list \<Rightarrow> bool" where
  "tiles b e [] = (b = e)"
| "tiles b e (t # ts) = (start t = b \<and> tiles (start t + duration t) e ts)"

text \<open>
  The segment count of \<^verbatim>\<open>run_parallel\<close>:
  \<^verbatim>\<open>num_chunks = int(num_workers * 1.5); num_chunks = max(num_chunks, num_workers)\<close>.
\<close>

definition num_chunks_of :: "int \<Rightarrow> int" where
  "num_chunks_of num_workers =
     (let num_chunks = py_int (fl (float_of_int num_workers * (3/2)))
      in max num_chunks num_workers)"

section \<open>The external encoder and the file system\<close>

text \<open>
  The engine runs \<^verbatim>\<open>ffmpeg\<close> through \<^verbatim>\<open>subprocess.run(cmd, capture_output=True, check=True)\<close>.
  The three command lines it builds are the constructors of \<open>ffmpeg_cmd\<close>, with the arguments
  that vary: the segment encode of \<^verbatim>\<open>process_chunk\<close>, the stream-copy concatenation and the
  re-encode concatenation of \<^verbatim>\<open>merge_chunks\<close> (manifest path, output path).
\<close>

datatype ffmpeg_cmd =
    Encode chunk_task string
  | ConcatCopy string string
  | ConcatReencode string string

fun cmd_output :: "ffmpeg_cmd \<Rightarrow> string" where
  "cmd_output (Encode task filter_chain) = output_path task"
| "cmd_output (ConcatCopy concat_file outp) = outp"
| "cmd_output (ConcatReencode concat_file outp) = outp"

text \<open>
  The captured standard error is a byte string. What the engine does with it is to test it for
  emptiness and to call \<^verbatim>\<open>decode()\<close> on it: either the bytes are valid UTF-8, and \<open>Decodes t\<close>
  carries the text \<open>t\<close> they decode to (the empty text for no bytes at all), or they are not
  (then there is at least one byte), and \<open>Undecodable m\<close> carries the message of the
  \<^verbatim>\<open>UnicodeDecodeError\<close> that \<^verbatim>\<open>decode()\<close> raises.
\<close>

datatype captured_bytes =
    Decodes string
  | Undecodable string

text \<open>
  What one run of the tool does is not decided by the engine: exit status (\<open>ok\<close> is exit
  status 0; otherwise \<^verbatim>\<open>CalledProcessError\<close> is raised), the captured standard error, whether a
  file is present at the output path afterwards (complete or partial), and the time taken.
\<close>

record proc_outcome =
  ok :: bool
  err_bytes :: captured_bytes
  leaves_output :: bool
  took :: rat

text \<open>
  The world the engine acts on: the set of existing files and, as a ghost field, the log of
  the \<^verbatim>\<open>ffmpeg\<close> commands run so far.
\<close>

record world =
  files :: "string set"
  cmd_log :: "ffmpeg_cmd list"

text \<open>
  The environment: the behaviour of the tool (which may depend on the files present), the
  text \<^verbatim>\<open>str(e)\<close> of a \<^verbatim>\<open>CalledProcessError\<close>, the rank in which the pool's futures
  complete, and the wall-clock time of the run.
\<close>

record env =
  ffmpeg :: "ffmpeg_cmd \<Rightarrow> string set \<Rightarrow> proc_outcome"
  describe_failure :: "ffmpeg_cmd \<Rightarrow> string"
  finish_rank :: "chunk_task \<Rightarrow> nat"
  wall_time :: rat

definition run_ffmpeg :: "env \<Rightarrow> ffmpeg_cmd \<Rightarrow> world \<Rightarrow> proc_outcome \<times> world" where
  "run_ffmpeg ev cmd w =
     (let r = ffmpeg ev cmd (files w)
      in (r, w\<lparr>files := (if leaves_output r then insert (cmd_output cmd) (files w) else files w),
               cmd_log := cmd_log w @ [cmd]\<rparr>))"

record chunk_result =
  result_id :: int
  success :: bool
  elapsed :: rat
  error :: "string option"

section \<open>The worker, the merge and the parallel run\<close>

text \<open>
  \<^verbatim>\<open>process_chunk(task, filter_chain)\<close>: it catches \<^verbatim>\<open>CalledProcessError\<close> and reports it in
  a result. The report is built inside the \<^verbatim>\<open>except\<close> clause by
  \<^verbatim>\<open>e.stderr.decode() if e.stderr else str(e)\<close>: when the captured bytes are not valid UTF-8 the
  \<^verbatim>\<open>UnicodeDecodeError\<close> leaves the worker and no result is returned.
\<close>

definition process_chunk ::
  "env \<Rightarrow> chunk_task \<Rightarrow> string \<Rightarrow> world \<Rightarrow> (py_error + chunk_result) \<times> world" where
  "process_chunk ev task filter_chain w =
     (let cmd = Encode task filter_chain;
          (r, w') = run_ffmpeg ev cmd w
      in if ok r
         then (Inr \<lparr>result_id = chunk_id task, success = True, elapsed = took r, error = None\<rparr>, w')
         else (case err_bytes r of
                 Undecodable m \<Rightarrow> (Inl (UnicodeDecodeError m), w')
               | Decodes t \<Rightarrow>
                   (Inr \<lparr>result_id = chunk_id task, success = False, elapsed = took r,
                         error = Some (if t \<noteq> [] then t else describe_failure ev cmd)\<rparr>, w')))"

text \<open>
  \<^verbatim>\<open>merge_chunks(chunk_paths, output_path, temp_dir)\<close>: writes the manifest, tries the
  stream copy, and on \<^verbatim>\<open>CalledProcessError\<close> the re-encode.
\<close>

definition merge_chunks :: "env \<Rightarrow> string list \<Rightarrow> string \<Rightarrow> string \<Rightarrow> world \<Rightarrow> bool \<times> world" where
  "merge_chunks ev chunk_paths outp temp_dir w =
     (let concat_file = path_join temp_dir ''concat_list.txt'';
          w0 = w\<lparr>files := insert concat_file (files w)\<rparr>;
          (r1, w1) = run_ffmpeg ev (ConcatCopy concat_file outp) w0
      in if ok r1 then (True, w1)
         else
           let (r2, w2) = run_ffmpeg ev (ConcatReencode concat_file outp) w1
           in if ok r2 then (True, w2) else (False, w2))"

text \<open>
  The pool: every submitted task runs to completion, also when the loop over the futures is
  left by an exception (leaving the \<^verbatim>\<open>with ProcessPoolExecutor\<close> block waits for the pending
  tasks); \<^verbatim>\<open>as_completed\<close> yields the futures in the order in which they finish. The tasks
  are run here one after the other in that order, and each future holds what its worker
  returned or raised.
\<close>

fun run_pool ::
  "env \<Rightarrow> string \<Rightarrow> chunk_task list \<Rightarrow> world \<Rightarrow> (py_error + chunk_result) list \<times> world" where
  "run_pool ev filter_chain [] w = ([], w)"
| "run_pool ev filter_chain (t # ts) w =
     (let (r, w') = process_chunk ev t filter_chain w;
          (rs, w'') = run_pool ev filter_chain ts w'
      in (r # rs, w''))"

text \<open>
  \<^verbatim>\<open>for future in as_completed(futures): results.append(future.result())\<close>: the first future
  whose worker raised re-raises its exception and ends the loop.
\<close>

fun future_results :: "(py_error + chunk_result) list \<Rightarrow> py_error + chunk_result list" where
  "future_results [] = Inr []"
| "future_results (Inl e # fs) = Inl e"
| "future_results (Inr r # fs) =
     (case future_results fs of Inl e \<Rightarrow> Inl e | Inr rs \<Rightarrow> Inr (r # rs))"

text \<open>\<^verbatim>\<open>[chunks[r.chunk_id].output_path for r in results]\<close>, with Python's list indexing.\<close>

definition py_index :: "'a list \<Rightarrow> int \<Rightarrow> py_error + 'a" where
  "py_index xs i =
     (if 0 \<le> i \<and> i < int (length xs) then Inr (xs ! nat i)
      else if i < 0 \<and> - int (length xs) \<le> i then Inr (xs ! nat (int (length xs) + i))
      else Inl IndexError)"

fun lookup_paths :: "chunk_task list \<Rightarrow> chunk_result list \<Rightarrow> py_error + string list" where
  "lookup_paths chunks [] = Inr []"
| "lookup_paths chunks (r # rs) =
     (case py_index chunks (result_id r) of
        Inl e \<Rightarrow> Inl e
      | Inr c \<Rightarrow> (case lookup_paths chunks rs of
                    Inl e \<Rightarrow> Inl e
                  | Inr ps \<Rightarrow> Inr (output_path c # ps)))"

text \<open>
  \<^verbatim>\<open>run_parallel(input_path, output_path, metadata, num_workers, filter_chain, temp_dir)\<close>
  without its live display. \<^verbatim>\<open>ProcessPoolExecutor\<close> rejects a worker count below 1.
\<close>

definition run_parallel ::
  "env \<Rightarrow> string \<Rightarrow> string \<Rightarrow> video_metadata \<Rightarrow> int \<Rightarrow> string \<Rightarrow> string \<Rightarrow> world
     \<Rightarrow> (py_error + rat \<times> chunk_result list) \<times> world" where
  "run_parallel ev inp outp metadata num_workers filter_chain temp_dir w =
     (case plan_chunks inp (vm_duration metadata) (num_chunks_of num_workers) temp_dir of
        Inl e \<Rightarrow> (Inl e, w)
      | Inr chunks \<Rightarrow>
          if num_workers \<le> 0
          then (Inl (ValueError ''max_workers must be greater than 0''), w)
          else
            let (futures, w1) =
                  run_pool ev filter_chain (sort_key (finish_rank ev) chunks) w
            in (case future_results futures of
                  Inl e \<Rightarrow> (Inl e, w1)
                | Inr completed \<Rightarrow>
                    let results = sort_key result_id completed;
                        failed = filter (\<lambda>r. \<not> success r) results
                    in if failed \<noteq> []
                       then (Inl (RuntimeError (string_of_nat (length failed) @ '' chunks failed'')), w1)
                       else
                         (case lookup_paths chunks results of
                            Inl e \<Rightarrow> (Inl e, w1)
                          | Inr chunk_paths \<Rightarrow>
                              let (merge_success, w2) = merge_chunks ev chunk_paths outp temp_dir w1
                              in if \<not> merge_success
                                 then (Inl (RuntimeError ''Merge failed''), w2)
                                 else (Inr (wall_time ev, results), w2))))"

text \<open>
  The part of \<^verbatim>\<open>run_parallel\<close> up to the end of the pool: the exception of the first future
  that raised, or else the results in completion order, and the world once every task has run.
\<close>

definition pool_run ::
  "env \<Rightarrow> string \<Rightarrow> video_metadata \<Rightarrow> int \<Rightarrow> string \<Rightarrow> string \<Rightarrow> world
     \<Rightarrow> (py_error + chunk_result list) \<times> world" where
  "pool_run ev inp metadata num_workers filter_chain temp_dir w =
     (let (futures, w1) =
            run_pool ev filter_chain
              (sort_key (finish_rank ev)
                 (planned (plan_chunks inp (vm_duration metadata) (num_chunks_of num_workers) temp_dir))) w
      in (future_results futures, w1))"

text \<open>The results of a pool in which no worker raised (the empty list otherwise).\<close>

definition returned :: "py_error + chunk_result list \<Rightarrow> chunk_result list" where
  "returned x = (case x of Inl e \<Rightarrow> [] | Inr rs \<Rightarrow> rs)"

text \<open>
  Three environments for concrete runs. In \<open>env_segment_2_fails\<close> the encode of segment 2 exits
  non-zero with the diagnostic \<^verbatim>\<open>boom\<close> and everything else succeeds. In
  \<open>env_merge_fails\<close> every encode succeeds and both concatenations exit non-zero, the first
  one after it has started to write the output file. In \<open>env_stderr_not_utf8\<close> the encode of
  segment 1 exits non-zero with a diagnostic that is not valid UTF-8, the encode of segment 2
  exits non-zero with the diagnostic \<^verbatim>\<open>boom\<close>, and everything else succeeds.
\<close>

definition env_segment_2_fails :: env where
  "env_segment_2_fails =
     \<lparr>ffmpeg = (\<lambda>cmd fs. case cmd of
                  Encode task filter_chain \<Rightarrow>
                    if chunk_id task = 2
                    then \<lparr>ok = False, err_bytes = Decodes ''boom'', leaves_output = False, took = 1\<rparr>
                    else \<lparr>ok = True, err_bytes = Decodes [], leaves_output = True, took = 1\<rparr>
                | _ \<Rightarrow> \<lparr>ok = True, err_bytes = Decodes [], leaves_output = True, took = 1\<rparr>),
      describe_failure = (\<lambda>cmd. ''Command returned non-zero exit status 1.''),
      finish_rank = (\<lambda>task. nat (chunk_id task)),
      wall_time = 2\<rparr>"

definition env_merge_fails :: env where
  "env_merge_fails =
     \<lparr>ffmpeg = (\<lambda>cmd fs. case cmd of
                  Encode task filter_chain \<Rightarrow>
                    \<lparr>ok = True, err_bytes = Decodes [], leaves_output = True, took = 1\<rparr>
                | ConcatCopy concat_file outp \<Rightarrow>
                    \<lparr>ok = False, err_bytes = Decodes ''copy failed'', leaves_output = True, took = 1\<rparr>
                | ConcatReencode concat_file outp \<Rightarrow>
                    \<lparr>ok = False, err_bytes = Decodes ''encode failed'', leaves_output = False, took = 1\<rparr>),
      describe_failure = (\<lambda>cmd. ''Command returned non-zero exit status 1.''),
      finish_rank = (\<lambda>task. nat (chunk_id task)),
      wall_time = 2\<rparr>"

definition env_stderr_not_utf8 :: env where
  "env_stderr_not_utf8 =
     \<lparr>ffmpeg = (\<lambda>cmd fs. case cmd of
                  Encode task filter_chain \<Rightarrow>
                    if chunk_id task = 1
                    then \<lparr>ok = False,
                          err_bytes = Undecodable ''invalid start byte'',
                          leaves_output = False, took = 1\<rparr>
                    else if chunk_id task = 2
                    then \<lparr>ok = False, err_bytes = Decodes ''boom'', leaves_output = False, took = 1\<rparr>
                    else \<lparr>ok = True, err_bytes = Decodes [], leaves_output = True, took = 1\<rparr>
                | _ \<Rightarrow> \<lparr>ok = True, err_bytes = Decodes [], leaves_output = True, took = 1\<rparr>),
      describe_failure = (\<lambda>cmd. ''Command returned non-zero exit status 1.''),
      finish_rank = (\<lambda>task. nat (chunk_id task)),
      wall_time = 2\<rparr>"

definition video_3s :: video_metadata where
  "video_3s = \<lparr>vm_duration = 3, vm_width = 640, vm_height = 360, vm_fps = 30,
               vm_codec = ''h264'', vm_has_audio = False\<rparr>"

definition world_0 :: world where
  "world_0 = \<lparr>files = {''in.mp4''}, cmd_log = []\<rparr>"

section \<open>Amdahl analysis\<close>

text \<open>
  The analysis at the end of \<^verbatim>\<open>display_results\<close>, for a sweep entry of \<^verbatim>\<open>max_workers\<close> that
  succeeded with time \<^verbatim>\<open>best_time\<close>. The result is \<open>None\<close> when nothing is reported
  (\<^verbatim>\<open>actual_speedup >= max_workers\<close>), otherwise the serial fraction, the theoretical maximum
  and the actual speedup. A float division by zero raises.
\<close>

definition amdahl :: "rat \<Rightarrow> rat \<Rightarrow> int \<Rightarrow> py_error + (rat \<times> rat \<times> rat) option" where
  "amdahl serial_time best_time max_workers =
     (if best_time = 0 then Inl ZeroDivisionError
      else
        let actual_speedup = fl (serial_time / best_time)
        in if actual_speedup < of_int max_workers
           then
             if max_workers = 0 then Inl ZeroDivisionError
             else
               let numer = fl (1 - fl (actual_speedup / float_of_int max_workers));
                   denom = fl (1 - fl (1 / of_int max_workers))
               in if denom = 0 then Inl ZeroDivisionError
                  else
                    let serial_fraction = fl (numer / denom);
                        serial_fraction = max 0 (min 1 serial_fraction);
                        theoretical_max = (if 0 < serial_fraction then fl (1 / serial_fraction)
                                           else of_int max_workers);
                        theoretical_max = min theoretical_max (of_int (max_workers * 2))
                    in Inr (Some (serial_fraction, theoretical_max, actual_speedup))
           else Inr None)"

text \<open>Amdahl's law as the specification writes it: \<open>A = 1 / (f + (1 - f) / N)\<close>.\<close>

definition solves_amdahl :: "rat \<Rightarrow> int \<Rightarrow> rat \<Rightarrow> bool" where
  "solves_amdahl A N f =
     (f + (1 - f) / of_int N \<noteq> 0 \<and> A = 1 / (f + (1 - f) / of_int N))"

section \<open>Scaling sweep: the worker series\<close>

text \<open>
  \<^verbatim>\<open>w = 2; while w <= max_workers: worker_counts.append(w); w *= 2\<close>.
  The loop is a partial function: a result \<open>None\<close> would mean that it does not return.
\<close>

partial_function (option) sweep_loop :: "int \<Rightarrow> int \<Rightarrow> int list \<Rightarrow> int list option" where
  "sweep_loop w max_workers worker_counts =
     (if w \<le> max_workers
      then sweep_loop (w * 2) max_workers (worker_counts @ [w])
      else Some worker_counts)"

text \<open>
  The series \<^verbatim>\<open>run_scaling_sweep\<close> iterates over: the loop from \<^verbatim>\<open>[1]\<close>, then
  \<^verbatim>\<open>max_workers\<close> appended when absent, then \<^verbatim>\<open>sorted(set(worker_counts))\<close>.
\<close>

definition worker_series :: "int \<Rightarrow> int list option" where
  "worker_series max_workers =
     (case sweep_loop 2 max_workers [1] of
        None \<Rightarrow> None
      | Some worker_counts \<Rightarrow>
          let worker_counts' =
                (if max_workers \<in> set worker_counts then worker_counts
                 else worker_counts @ [max_workers])
          in Some (sorted_list_of_set (set worker_counts')))"

section \<open>The rendering server: jobs\<close>

text \<open>
  A job is the dictionary stored in \<^verbatim>\<open>JOBS\<close>. Keys that \<^verbatim>\<open>create_job\<close> does not set are
  absent until \<^verbatim>\<open>run_render_task\<close> sets them (\<open>None\<close>). The two formatted times
  (\<^verbatim>\<open>f"{x:.2f}s"\<close>) are kept as numbers.
\<close>

record smart_conf =
  sc_workers :: int
  sc_filter :: string

record job =
  job_id :: string
  status :: string
  phase :: string
  progress :: int
  input :: string
  workers :: int
  filter_chain :: string
  created_at :: rat
  smart_config :: "smart_conf option"
  comparison_report :: "string option"
  engine_version :: string
  projected_serial_time :: "rat option"
  job_output :: "string option"
  job_duration :: "rat option"
  job_error :: "string option"

text \<open>
  The state of the server process: \<^verbatim>\<open>JOBS\<close>, \<^verbatim>\<open>GLOBAL_STATS\<close>, the directories that
  exist under \<^verbatim>\<open>TEMP_BASE\<close> and, as a ghost field, the trail: the value of the job record
  after each assignment that \<^verbatim>\<open>run_render_task\<close> makes to it.
\<close>

record server =
  jobs :: "string \<rightharpoonup> job"
  total_jobs :: int
  successful_jobs :: int
  failed_jobs :: int
  total_frames_processed :: int
  total_processing_time :: rat
  temp_dirs :: "string set"
  trail :: "job list"

text \<open>
  What the server calls and does not define: the engine it imports (\<^verbatim>\<open>analyze_video\<close>,
  \<^verbatim>\<open>get_smart_config\<close>, \<^verbatim>\<open>benchmark_serial\<close>, a \<^verbatim>\<open>run_parallel\<close> that takes
  \<^verbatim>\<open>quiet\<close> and \<^verbatim>\<open>progress_callback\<close>), the optional V2 engine, and the operating system.
  Each may raise. \<open>run_parallel_cb\<close> gives the values passed to the progress callback, in
  order, and then the outcome of the run. \<open>resolve_input_path\<close> gives the resolved path and
  the path relative to the project root, or the HTTP error. \<open>make_dir\<close> gives the
  \<^verbatim>\<open>OSError\<close> that \<^verbatim>\<open>Path.mkdir\<close> raises for a directory that does not exist yet (its
  parent is missing, the permission is denied, a file is in the way, the disk is full), if any.
\<close>

datatype http_error = HTTPException int string

record server_env =
  v2_available :: bool
  analyze_video :: "string \<Rightarrow> py_error + video_metadata"
  get_smart_config :: "video_metadata \<Rightarrow> int \<Rightarrow> py_error + smart_conf"
  get_content_aware_config :: "video_metadata \<Rightarrow> int \<Rightarrow> string \<Rightarrow> py_error + smart_conf"
  benchmark_serial :: "string \<Rightarrow> string \<Rightarrow> string \<Rightarrow> py_error + rat"
  run_parallel_cb ::
    "string \<Rightarrow> string \<Rightarrow> video_metadata \<Rightarrow> int \<Rightarrow> string \<Rightarrow> string
       \<Rightarrow> int list \<times> (py_error + rat)"
  generate_comparison_report :: "string \<Rightarrow> string \<Rightarrow> rat \<Rightarrow> py_error + string"
  cpu_count :: "int option"
  new_job_id :: string
  time_now :: rat
  resolve_input_path :: "string \<Rightarrow> http_error + string \<times> string"
  make_dir :: "string \<Rightarrow> py_error option"

text \<open>An assignment \<^verbatim>\<open>job[key] = value\<close> to the job record of \<^verbatim>\<open>job_id\<close>.\<close>

definition write_job :: "string \<Rightarrow> (job \<Rightarrow> job) \<Rightarrow> server \<Rightarrow> server" where
  "write_job jid f s =
     (case jobs s jid of
        None \<Rightarrow> s
      | Some j \<Rightarrow> s\<lparr>jobs := (jobs s)(jid \<mapsto> f j), trail := trail s @ [f j]\<rparr>)"

definition temp_base :: string where
  "temp_base = ''.server_temp''"

definition output_dir :: string where
  "output_dir = ''outputs''"

text \<open>
  The \<^verbatim>\<open>try\<close> block, step by step as the source numbers them. Step 2, the smart mode
  override: the worker count and the filter chain to use from then on.
\<close>

definition smart_step ::
  "server_env \<Rightarrow> string \<Rightarrow> string \<Rightarrow> video_metadata \<Rightarrow> int \<Rightarrow> string \<Rightarrow> bool \<Rightarrow> string
     \<Rightarrow> server \<Rightarrow> (py_error + int \<times> string) \<times> server" where
  "smart_step ev jid inp metadata workers0 filter_chain0 smart_mode engine s =
     (if smart_mode
      then (case (if engine = ''v2'' \<and> v2_available ev
                  then get_content_aware_config ev metadata workers0 inp
                  else get_smart_config ev metadata workers0) of
              Inl e \<Rightarrow> (Inl e, s)
            | Inr conf \<Rightarrow>
                let s1 = write_job jid (\<lambda>j. j\<lparr>workers := sc_workers conf\<rparr>) s;
                    s2 = write_job jid (\<lambda>j. j\<lparr>filter_chain := sc_filter conf\<rparr>) s1;
                    s3 = write_job jid (\<lambda>j. j\<lparr>smart_config := Some conf\<rparr>) s2
                in (Inr (sc_workers conf, sc_filter conf), s3))
      else (Inr (workers0, filter_chain0), s))"

text \<open>Step 3, the serial benchmark. It is not conditional.\<close>

definition benchmark_step ::
  "server_env \<Rightarrow> string \<Rightarrow> string \<Rightarrow> string \<Rightarrow> video_metadata \<Rightarrow> string \<Rightarrow> server
     \<Rightarrow> py_error option \<times> server" where
  "benchmark_step ev jid inp job_temp metadata filter_chain1 s =
     (let s1 = write_job jid (\<lambda>j. j\<lparr>phase := ''benchmarking''\<rparr>) s
      in case benchmark_serial ev inp job_temp filter_chain1 of
           Inl e \<Rightarrow> (Some e, s1)
         | Inr serial_sample_time \<Rightarrow>
             let bench_dur = min 2 (vm_duration metadata)
             in if bench_dur = 0 then (Some ZeroDivisionError, s1)
                else
                  let projected_serial =
                        fl (fl (vm_duration metadata / bench_dur) * serial_sample_time)
                  in (None,
                      write_job jid (\<lambda>j. j\<lparr>projected_serial_time := Some projected_serial\<rparr>) s1))"

text \<open>
  Steps 4 and 5, the parallel run; \<^verbatim>\<open>on_progress(p)\<close> assigns \<^verbatim>\<open>job["progress"] = p\<close>.
\<close>

definition parallel_step ::
  "server_env \<Rightarrow> string \<Rightarrow> string \<Rightarrow> string \<Rightarrow> video_metadata \<Rightarrow> int \<Rightarrow> string \<Rightarrow> string
     \<Rightarrow> server \<Rightarrow> (py_error + rat) \<times> server" where
  "parallel_step ev jid inp outp metadata workers1 filter_chain1 job_temp s =
     (let s1 = write_job jid (\<lambda>j. j\<lparr>phase := ''parallel''\<rparr>) s;
          (ps, outcome) = run_parallel_cb ev inp outp metadata workers1 filter_chain1 job_temp;
          s2 = fold (\<lambda>p. write_job jid (\<lambda>j. j\<lparr>progress := p\<rparr>)) ps s1
      in (outcome, s2))"

text \<open>The statements after a successful parallel run.\<close>

definition completion_step ::
  "server_env \<Rightarrow> string \<Rightarrow> string \<Rightarrow> string \<Rightarrow> string \<Rightarrow> video_metadata \<Rightarrow> rat \<Rightarrow> server
     \<Rightarrow> py_error option \<times> server" where
  "completion_step ev jid inp outp output_filename metadata elapsed_time s =
     (let s1 = write_job jid (\<lambda>j. j\<lparr>status := ''completed''\<rparr>) s;
          s2 = write_job jid (\<lambda>j. j\<lparr>phase := ''completed''\<rparr>) s1;
          s3 = write_job jid (\<lambda>j. j\<lparr>progress := 100\<rparr>) s2;
          s4 = write_job jid (\<lambda>j. j\<lparr>job_output := Some (''/outputs/'' @ output_filename)\<rparr>) s3;
          s5 = write_job jid (\<lambda>j. j\<lparr>job_duration := Some elapsed_time\<rparr>) s4
      in case generate_comparison_report ev inp outp (min 8 (vm_duration metadata)) of
           Inl e \<Rightarrow> (Some e, s5)
         | Inr report \<Rightarrow>
             let s6 = write_job jid (\<lambda>j. j\<lparr>comparison_report := Some report\<rparr>) s5
             in (None,
                 s6\<lparr>successful_jobs := successful_jobs s6 + 1,
                    total_processing_time := fl (total_processing_time s6 + elapsed_time),
                    total_frames_processed :=
                      total_frames_processed s6
                      + py_int (fl (vm_duration metadata * vm_fps metadata))\<rparr>))"

text \<open>The body of the \<^verbatim>\<open>try\<close> block: the exception raised in it, if any, and the state then.\<close>

definition try_body ::
  "server_env \<Rightarrow> string \<Rightarrow> string \<Rightarrow> int \<Rightarrow> string \<Rightarrow> bool \<Rightarrow> string \<Rightarrow> server
     \<Rightarrow> py_error option \<times> server" where
  "try_body ev jid inp workers0 filter_chain0 smart_mode engine s =
     (let job_temp = path_join temp_base jid;
          output_filename = ''output_'' @ jid @ ''.mp4'';
          outp = path_join output_dir output_filename
      in case analyze_video ev inp of
           Inl e \<Rightarrow> (Some e, s)
         | Inr metadata \<Rightarrow>
             (case smart_step ev jid inp metadata workers0 filter_chain0 smart_mode engine s of
                (Inl e, s1) \<Rightarrow> (Some e, s1)
              | (Inr (workers1, filter_chain1), s1) \<Rightarrow>
                  (case benchmark_step ev jid inp job_temp metadata filter_chain1 s1 of
                     (Some e, s2) \<Rightarrow> (Some e, s2)
                   | (None, s2) \<Rightarrow>
                       (case parallel_step ev jid inp outp metadata workers1 filter_chain1
                               job_temp s2 of
                          (Inl e, s3) \<Rightarrow> (Some e, s3)
                        | (Inr elapsed_time, s3) \<Rightarrow>
                            completion_step ev jid inp outp output_filename metadata
                              elapsed_time s3))))"

text \<open>The \<^verbatim>\<open>except Exception as e\<close> handler.\<close>

definition except_handler :: "string \<Rightarrow> py_error \<Rightarrow> server \<Rightarrow> server" where
  "except_handler jid e s =
     (let s1 = write_job jid (\<lambda>j. j\<lparr>status := ''failed''\<rparr>) s;
          s2 = write_job jid (\<lambda>j. j\<lparr>phase := ''completed''\<rparr>) s1;
          s3 = write_job jid (\<lambda>j. j\<lparr>job_error := Some (error_message e)\<rparr>) s2
      in s3\<lparr>failed_jobs := failed_jobs s3 + 1\<rparr>)"

text \<open>
  The statements before the \<^verbatim>\<open>try\<close>: the job is marked as processing and analyzing, and
  its working directory is created by \<^verbatim>\<open>job_temp.mkdir(exist_ok=True)\<close>, which does nothing
  when the directory exists and may raise when it does not. The result is the exception raised
  by it, if any, and the state then.
\<close>

definition task_entry :: "server_env \<Rightarrow> string \<Rightarrow> server \<Rightarrow> py_error option \<times> server" where
  "task_entry ev jid s =
     (let s1 = write_job jid (\<lambda>j. j\<lparr>status := ''processing''\<rparr>) s;
          s2 = write_job jid (\<lambda>j. j\<lparr>phase := ''analyzing''\<rparr>) s1;
          job_temp = path_join temp_base jid
      in if job_temp \<in> temp_dirs s2 then (None, s2)
         else (case make_dir ev job_temp of
                 Some e \<Rightarrow> (Some e, s2)
               | None \<Rightarrow> (None, s2\<lparr>temp_dirs := insert job_temp (temp_dirs s2)\<rparr>)))"

text \<open>
  \<^verbatim>\<open>run_render_task(job_id, input_path, workers, filter_chain, smart_mode, engine_version)\<close>.
  The result is the exception that leaves the function, if any (a job id that is not in
  \<^verbatim>\<open>JOBS\<close>, or what \<^verbatim>\<open>mkdir\<close> raised: both are before the \<^verbatim>\<open>try\<close>, so neither the handler
  nor the \<^verbatim>\<open>finally\<close> clause runs), and the state afterwards. The \<^verbatim>\<open>finally\<close> clause removes
  the working directory.
\<close>

definition run_render_task ::
  "server_env \<Rightarrow> string \<Rightarrow> string \<Rightarrow> int \<Rightarrow> string \<Rightarrow> bool \<Rightarrow> string \<Rightarrow> server
     \<Rightarrow> py_error option \<times> server" where
  "run_render_task ev jid inp workers0 filter_chain0 smart_mode engine s =
     (case jobs s jid of
        None \<Rightarrow> (Some (KeyError jid), s)
      | Some _ \<Rightarrow>
          (case task_entry ev jid s of
             (Some e, s1) \<Rightarrow> (Some e, s1)
           | (None, s1) \<Rightarrow>
               let (exc, s2) = try_body ev jid inp workers0 filter_chain0 smart_mode engine s1;
                   s3 = (case exc of None \<Rightarrow> s2 | Some e \<Rightarrow> except_handler jid e s2)
               in (None, s3\<lparr>temp_dirs := temp_dirs s3 - {path_join temp_base jid}\<rparr>)))"

text \<open>
  \<open>tracks jid j s\<close>: the record of job \<open>jid\<close> is \<open>j\<close>, and it is the last entry of the trail.
\<close>

definition tracks :: "string \<Rightarrow> job \<Rightarrow> server \<Rightarrow> bool" where
  "tracks jid j s = (jobs s jid = Some j \<and> trail s \<noteq> [] \<and> last (trail s) = j)"

text \<open>The successive values of the phase of the job, without repetitions.\<close>

definition phase_history :: "server \<Rightarrow> string list" where
  "phase_history s = remdups_adj (map phase (trail s))"

section \<open>The rendering server: job submission\<close>

text \<open>The request body \<^verbatim>\<open>JobCreate\<close>; an omitted optional field has its default.\<close>

record job_create =
  req_input_path :: string
  req_workers :: "int option"
  req_filter_chain :: "string option"
  req_smart :: "bool option"
  req_engine_version :: "string option"

text \<open>\<^verbatim>\<open>a or b\<close> for an optional int and for an optional string: the first operand if truthy.\<close>

definition int_or :: "int option \<Rightarrow> int \<Rightarrow> int" where
  "int_or a b = (case a of None \<Rightarrow> b | Some x \<Rightarrow> if x \<noteq> 0 then x else b)"

definition str_or :: "string option \<Rightarrow> string \<Rightarrow> string" where
  "str_or a b = (case a of None \<Rightarrow> b | Some x \<Rightarrow> if x \<noteq> [] then x else b)"

text \<open>
  \<^verbatim>\<open>create_job(job_req, background_tasks)\<close>: the response (the new job record) or the HTTP
  error, and the state. The background task it schedules runs later. The ghost trail starts
  with the record as it is stored.
\<close>

definition create_job :: "server_env \<Rightarrow> job_create \<Rightarrow> server \<Rightarrow> (http_error + job) \<times> server" where
  "create_job ev job_req s =
     (case resolve_input_path ev (req_input_path job_req) of
        Inl e \<Rightarrow> (Inl e, s)
      | Inr (resolved_input_path, input_display_path) \<Rightarrow>
          let engine = str_or (req_engine_version job_req) ''v1''
          in if engine = ''v2'' \<and> \<not> v2_available ev
             then (Inl (HTTPException 400 ''V2 engine not available''), s)
             else
               let jid = new_job_id ev;
                   workers1 = int_or (req_workers job_req) (int_or (cpu_count ev) 4)
               in if workers1 < 1
                  then (Inl (HTTPException 400 ''workers must be >= 1''), s)
                  else
                    let filter_chain1 = str_or (req_filter_chain job_req) ''unsharp=5:5:1.5:5:5:0.5'';
                        j = \<lparr>job_id = jid, status = ''queued'', phase = ''queued'', progress = 0,
                             input = input_display_path, workers = workers1,
                             filter_chain = filter_chain1, created_at = time_now ev,
                             smart_config = None, comparison_report = None,
                             engine_version = engine, projected_serial_time = None,
                             job_output = None, job_duration = None, job_error = None\<rparr>
                    in (Inr j, s\<lparr>jobs := (jobs s)(jid \<mapsto> j), total_jobs := total_jobs s + 1,
                              trail := [j]\<rparr>))"

text \<open>
  Four environments for concrete runs of the server. In \<open>srv_env_ok\<close> every collaborator
  succeeds and the progress callback is called with 33 and 66. In \<open>srv_env_parallel_fails\<close>
  the parallel run raises after these two callbacks. In \<open>srv_env_report_fails\<close> the
  comparison report raises (\<^verbatim>\<open>os.path.getsize\<close> on a file that is gone). In
  \<open>srv_env_mkdir_fails\<close> the working directory cannot be created (\<^verbatim>\<open>.server_temp\<close> was removed
  after the server started, and \<^verbatim>\<open>mkdir\<close> is called without \<^verbatim>\<open>parents=True\<close>).
\<close>

definition srv_env_ok :: server_env where
  "srv_env_ok =
     \<lparr>v2_available = False,
      analyze_video = (\<lambda>inp. Inr video_3s),
      get_smart_config = (\<lambda>metadata w. Inr \<lparr>sc_workers = 2, sc_filter = ''boxblur=10:1''\<rparr>),
      get_content_aware_config =
        (\<lambda>metadata w inp. Inr \<lparr>sc_workers = 2, sc_filter = ''boxblur=10:1''\<rparr>),
      benchmark_serial = (\<lambda>inp job_temp filter_chain1. Inr 1),
      run_parallel_cb = (\<lambda>inp outp metadata w filter_chain1 job_temp. ([33, 66], Inr 2)),
      generate_comparison_report = (\<lambda>inp outp sample_seconds. Inr ''Visual similarity is high.''),
      cpu_count = Some 8,
      new_job_id = ''0a1b2c3d'',
      time_now = 0,
      resolve_input_path = (\<lambda>raw_path. Inr (''/srv/'' @ raw_path, raw_path)),
      make_dir = (\<lambda>path. None)\<rparr>"

definition srv_env_parallel_fails :: server_env where
  "srv_env_parallel_fails =
     srv_env_ok\<lparr>run_parallel_cb :=
                   (\<lambda>inp outp metadata w filter_chain1 job_temp.
                      ([33, 66], Inl (RuntimeError ''1 chunks failed'')))\<rparr>"

definition srv_env_report_fails :: server_env where
  "srv_env_report_fails =
     srv_env_ok\<lparr>generate_comparison_report :=
                   (\<lambda>inp outp sample_seconds.
                      Inl (OtherError ''[Errno 2] No such file or directory''))\<rparr>"

definition srv_env_mkdir_fails :: server_env where
  "srv_env_mkdir_fails =
     srv_env_ok\<lparr>make_dir :=
                   (\<lambda>path. Some (OtherError (''[Errno 2] No such file or directory: ''
                                              @ [CHR 0x27] @ path @ [CHR 0x27])))\<rparr>"

definition server_0 :: server where
  "server_0 = \<lparr>jobs = Map.empty, total_jobs = 0, successful_jobs = 0, failed_jobs = 0,
               total_frames_processed = 0, total_processing_time = 0, temp_dirs = {},
               trail = []\<rparr>"

definition request_0 :: job_create where
  "request_0 = \<lparr>req_input_path = ''uploads/in.mp4'', req_workers = None,
                req_filter_chain = None, req_smart = None, req_engine_version = None\<rparr>"

text \<open>
  The server after the submission of \<open>request_0\<close>: one queued job, \<^verbatim>\<open>0a1b2c3d\<close>, whose
  record is \<open>job_1\<close>.
\<close>

definition job_1 :: job where
  "job_1 = \<lparr>job_id = ''0a1b2c3d'', status = ''queued'', phase = ''queued'', progress = 0,
            input = ''uploads/in.mp4'', workers = 8, filter_chain = ''unsharp=5:5:1.5:5:5:0.5'',
            created_at = 0, smart_config = None, comparison_report = None,
            engine_version = ''v1'', projected_serial_time = None, job_output = None,
            job_duration = None, job_error = None\<rparr>"

definition server_1 :: server where
  "server_1 = snd (create_job srv_env_ok request_0 server_0)"

section \<open>Properties of the rounding model\<close>

lemma round_half_even_of_int: "round_half_even (of_int n) = n"
  by (simp add: round_half_even_def)

lemma round_half_even_error: "\<bar>of_int (round_half_even y) - y\<bar> \<le> 1/2"
proof -
  have "of_int \<lfloor>y\<rfloor> \<le> y" "y < of_int \<lfloor>y\<rfloor> + 1" by linarith+
  thus ?thesis
    by (auto simp: round_half_even_def Let_def abs_le_iff)
qed

lemma ilog2_ge1:
  assumes "1 \<le> x"
  shows "2 powi (ilog2 x) \<le> x" "x < 2 powi (ilog2 x + 1)"
proof -
  let ?n = "nat \<lfloor>x\<rfloor>"
  have n: "0 < ?n" using assms by simp
  have fl0: "0 < floorlog 2 ?n" using n floorlog_eq_zero_iff[of 2 ?n] by auto
  from floorlog_bounds[of ?n 2] n
  have b: "2 ^ (floorlog 2 ?n - 1) \<le> ?n" "?n < 2 ^ floorlog 2 ?n" by auto
  have il: "ilog2 x = int (floorlog 2 ?n - 1)" using assms fl0 by (simp add: ilog2_def)
  have "(2::rat) ^ (floorlog 2 ?n - 1) \<le> of_nat ?n"
    using b(1) by (metis of_nat_le_iff of_nat_numeral of_nat_power)
  also have "of_nat ?n \<le> x" using assms by (simp add: of_nat_nat)
  finally show "2 powi (ilog2 x) \<le> x" by (simp add: il)
  have "\<lfloor>x\<rfloor> + 1 \<le> 2 ^ floorlog 2 ?n" using b(2) assms
    by (metis (mono_tags, opaque_lifting) add1_zle_eq nat_less_iff of_nat_numeral of_nat_power
        zero_le_floor order_trans zero_le_one)
  hence "x < of_int (2 ^ floorlog 2 ?n)"
    by (metis floor_less_iff add1_zle_eq)
  moreover have "ilog2 x + 1 = int (floorlog 2 ?n)" using il fl0 by simp
  ultimately show "x < 2 powi (ilog2 x + 1)" by simp
qed

lemma ilog2_lt1:
  assumes "0 < x" "x < 1"
  shows "2 powi (ilog2 x) \<le> x" "x < 2 powi (ilog2 x + 1)"
proof -
  define y where "y = 1 / x"
  define m where "m = nat (\<lceil>y\<rceil> - 1)"
  define k where "k = floorlog 2 m"
  have y1: "1 < y" using assms by (simp add: y_def)
  hence c2: "2 \<le> \<lceil>y\<rceil>" by linarith
  hence m: "0 < m" by (simp add: m_def)
  have k0: "0 < k" using m floorlog_eq_zero_iff[of 2 m] by (auto simp: k_def)
  from floorlog_bounds[of m 2] m
  have b: "2 ^ (k - 1) \<le> m" "m < 2 ^ k" by (auto simp: k_def)
  have il: "ilog2 x = - int k" using assms by (simp add: ilog2_def k_def m_def y_def)
  have mi: "int m = \<lceil>y\<rceil> - 1" using c2 by (simp add: m_def)
  have "int m < 2 ^ k" using b(2) by (metis of_nat_less_iff of_nat_numeral of_nat_power)
  hence "\<lceil>y\<rceil> \<le> 2 ^ k" using mi by linarith
  hence "y \<le> of_int (2 ^ k)" by (simp only: ceiling_le_iff)
  hence yk: "y \<le> 2 ^ k" by simp
  have "1 / (2::rat) ^ k \<le> 1 / y" using yk y1 by (intro divide_left_mono) auto
  thus "2 powi (ilog2 x) \<le> x" using assms
    by (simp add: il y_def power_int_minus field_simps)
  have "(2::int) ^ (k - 1) \<le> int m"
    using b(1) by (metis of_nat_le_iff of_nat_numeral of_nat_power)
  hence "(2::int) ^ (k - 1) < \<lceil>y\<rceil>" using mi by linarith
  hence "of_int (2 ^ (k - 1)) < y" by (simp only: less_ceiling_iff)
  hence yk': "2 ^ (k - 1) < y" by simp
  have "1 / y < 1 / (2::rat) ^ (k - 1)"
    using yk' y1 by (intro divide_strict_left_mono) (auto intro: mult_pos_pos)
  moreover have "ilog2 x + 1 = - int (k - 1)" using il k0 by simp
  ultimately show "x < 2 powi (ilog2 x + 1)" using assms
    by (simp add: y_def power_int_minus field_simps)
qed

lemma ilog2_bounds:
  assumes "0 < x"
  shows "2 powi (ilog2 x) \<le> x" "x < 2 powi (ilog2 x + 1)"
  using assms ilog2_ge1[of x] ilog2_lt1[of x] by (cases "1 \<le> x"; simp)+

text \<open>Rounding changes a value by at most half a unit in the last place: relative error \<open>2^-53\<close>.\<close>

lemma fl_error: "\<bar>fl x - x\<bar> \<le> \<bar>x\<bar> / 2 ^ 53"
proof (cases "x = 0")
  case True
  thus ?thesis by (simp add: fl_def)
next
  case False
  define e where "e = ilog2 \<bar>x\<bar>"
  define ulp :: rat where "ulp = 2 powi (e - 52)"
  have ulp: "0 < ulp" by (simp add: ulp_def)
  have flx: "fl x = of_int (round_half_even (x / ulp)) * ulp"
    using False by (simp add: fl_def Let_def ulp_def e_def)
  have "fl x - x = (of_int (round_half_even (x / ulp)) - x / ulp) * ulp"
    using ulp by (simp add: flx field_simps)
  hence "\<bar>fl x - x\<bar> = \<bar>of_int (round_half_even (x / ulp)) - x / ulp\<bar> * ulp"
    using ulp by (simp add: abs_mult)
  also have "\<dots> \<le> (1/2) * ulp"
    using round_half_even_error[of "x / ulp"] ulp by (intro mult_right_mono) auto
  also have "(1/2) * ulp = 2 powi e / 2 ^ 53"
    by (simp add: ulp_def power_int_diff)
  also have "\<dots> \<le> \<bar>x\<bar> / 2 ^ 53"
    using ilog2_bounds(1)[of "\<bar>x\<bar>"] False by (intro divide_right_mono) (auto simp: e_def)
  finally show ?thesis .
qed

text \<open>A number with a significand below \<open>2^53\<close> is a float: rounding leaves it unchanged.\<close>

lemma fl_exact:
  assumes "\<bar>m\<bar> < 2 ^ 53"
  shows "fl (of_int m * 2 powi k) = of_int m * 2 powi k"
proof (cases "m = 0")
  case True
  thus ?thesis by (simp add: fl_def)
next
  case False
  define x :: rat where "x = of_int m * 2 powi k"
  define e where "e = ilog2 \<bar>x\<bar>"
  define ulp :: rat where "ulp = 2 powi (e - 52)"
  have x0: "x \<noteq> 0" using False by (simp add: x_def)
  have ax: "\<bar>x\<bar> = of_int \<bar>m\<bar> * 2 powi k" by (simp add: x_def abs_mult)
  have "of_int \<bar>m\<bar> < (2::rat) ^ 53" using assms
    by (metis of_int_less_iff of_int_numeral of_int_power)
  hence "\<bar>x\<bar> < 2 ^ 53 * 2 powi k" unfolding ax
    by (intro mult_strict_right_mono) auto
  also have "\<dots> = 2 powi (53 + k)" by (simp add: power_int_add)
  finally have "2 powi e < (2::rat) powi (53 + k)"
    using ilog2_bounds(1)[of "\<bar>x\<bar>"] x0 by (simp add: e_def)
  hence "e < 53 + k"
    using power_int_increasing[of "53 + k" e "2::rat"] by (cases "e < 53 + k") auto
  hence d: "0 \<le> k - (e - 52)" by simp
  have "x / ulp = of_int m * 2 powi (k - (e - 52))"
    by (simp add: x_def ulp_def power_int_diff)
  also have "\<dots> = of_int (m * 2 ^ nat (k - (e - 52)))"
    using d by (simp add: power_int_def)
  finally have "round_half_even (x / ulp) = m * 2 ^ nat (k - (e - 52))"
    by (simp only: round_half_even_of_int)
  hence "fl x = of_int (m * 2 ^ nat (k - (e - 52))) * ulp"
    using x0 by (simp add: fl_def Let_def ulp_def e_def)
  also have "\<dots> = of_int m * 2 powi (k - (e - 52)) * ulp"
    using d by (simp add: power_int_def)
  also have "\<dots> = x" by (simp add: x_def ulp_def power_int_diff)
  finally show ?thesis by (simp add: x_def)
qed

lemma float_of_int_exact: "\<bar>m\<bar> < 2 ^ 53 \<Longrightarrow> float_of_int m = of_int m"
  using fl_exact[of m 0] by (simp add: float_of_int_def)

lemma fl_nonneg: "0 \<le> x \<Longrightarrow> 0 \<le> fl x"
proof -
  assume x: "0 \<le> x"
  have "x / 2 ^ 53 \<le> x" using x by (simp add: field_simps)
  moreover have "\<bar>fl x - x\<bar> \<le> x / 2 ^ 53" using fl_error[of x] x by simp
  ultimately show ?thesis by linarith
qed

lemma fl_pos: "0 < x \<Longrightarrow> 0 < fl x"
proof -
  assume x: "0 < x"
  have "x / 2 ^ 53 < x" using x by (simp add: field_simps)
  moreover have "\<bar>fl x - x\<bar> \<le> x / 2 ^ 53" using fl_error[of x] x by simp
  ultimately show ?thesis by linarith
qed

lemma py_int_nonneg: "0 \<le> x \<Longrightarrow> py_int x = \<lfloor>x\<rfloor>"
  by (simp add: py_int_def)

lemma is_float_fl_eq: "is_float x \<Longrightarrow> fl x = x"
  by (auto simp: is_float_def fl_exact)

lemma is_float_fl: "is_float (fl x)"
proof (cases "x = 0")
  case True
  have "\<bar>0::int\<bar> < 2 ^ 53 \<and> (0::rat) = of_int 0 * 2 powi 0" by simp
  thus ?thesis unfolding is_float_def using True by (auto simp: fl_def)
next
  case False
  define e where "e = ilog2 \<bar>x\<bar>"
  define ulp :: rat where "ulp = 2 powi (e - 52)"
  define r where "r = round_half_even (x / ulp)"
  have ulp: "0 < ulp" by (simp add: ulp_def)
  have flx: "fl x = of_int r * ulp"
    using False by (simp add: fl_def Let_def ulp_def e_def r_def)
  have "\<bar>x\<bar> < 2 powi (e + 1)" using ilog2_bounds(2)[of "\<bar>x\<bar>"] False by (simp add: e_def)
  also have "\<dots> = 2 ^ 53 * ulp" by (simp add: ulp_def power_int_diff power_int_add)
  finally have "\<bar>x / ulp\<bar> < 2 ^ 53" using ulp by (simp add: field_simps)
  moreover have "\<bar>of_int r - x / ulp\<bar> \<le> 1/2" unfolding r_def by (rule round_half_even_error)
  ultimately have "\<bar>of_int r :: rat\<bar> < 2 ^ 53 + 1" by linarith
  hence "of_int \<bar>r\<bar> < (of_int (2 ^ 53 + 1) :: rat)" by simp
  hence "\<bar>r\<bar> < 2 ^ 53 + 1" by (simp only: of_int_less_iff)
  hence "\<bar>r\<bar> < 2 ^ 53 \<or> r = 2 ^ 53 \<or> r = - (2 ^ 53)" by linarith
  thus ?thesis
  proof (elim disjE)
    assume "\<bar>r\<bar> < 2 ^ 53"
    thus ?thesis unfolding is_float_def flx ulp_def by blast
  next
    assume "r = 2 ^ 53"
    hence "fl x = of_int 1 * 2 powi (e + 1)" by (simp add: flx ulp_def power_int_diff power_int_add)
    moreover have "\<bar>1::int\<bar> < 2 ^ 53" by simp
    ultimately show ?thesis unfolding is_float_def by blast
  next
    assume "r = - (2 ^ 53)"
    hence "fl x = of_int (-1) * 2 powi (e + 1)" by (simp add: flx ulp_def power_int_diff power_int_add)
    moreover have "\<bar>-1::int\<bar> < 2 ^ 53" by simp
    ultimately show ?thesis unfolding is_float_def by blast
  qed
qed

lemma is_float_iff: "is_float x \<longleftrightarrow> fl x = x"
  using is_float_fl[of x] is_float_fl_eq[of x] by auto

lemma is_float_half: "is_float x \<Longrightarrow> is_float (x / 2)"
proof -
  assume "is_float x"
  then obtain m k where mk: "\<bar>m\<bar> < 2 ^ 53" "x = of_int m * 2 powi k" by (auto simp: is_float_def)
  have "x / 2 = of_int m * 2 powi (k - 1)" by (simp add: mk(2) power_int_diff)
  thus ?thesis using mk(1) unfolding is_float_def by blast
qed

text \<open>Sterbenz: the difference of two floats within a factor two of each other is a float.\<close>

lemma sterbenz_aux:
  assumes "\<bar>mx\<bar> < 2 ^ 53" "kx \<le> ky"
    and "\<bar>of_int mx * 2 powi kx - of_int my * 2 powi ky\<bar> \<le> \<bar>of_int mx * (2::rat) powi kx\<bar>"
  shows "is_float (of_int mx * 2 powi kx - of_int my * 2 powi ky)"
proof -
  define d where "d = nat (ky - kx)"
  define n where "n = mx - my * 2 ^ d"
  have ky: "ky = kx + int d" using assms(2) by (simp add: d_def)
  have p: "(2::rat) powi ky = 2 ^ d * 2 powi kx"
    by (simp add: ky power_int_add mult.commute)
  have eq: "of_int mx * 2 powi kx - of_int my * 2 powi ky = of_int n * (2::rat) powi kx"
    by (simp add: n_def p algebra_simps)
  have "\<bar>of_int n * (2::rat) powi kx\<bar> \<le> \<bar>of_int mx * (2::rat) powi kx\<bar>"
    using assms(3) unfolding eq .
  hence "\<bar>of_int n :: rat\<bar> * 2 powi kx \<le> \<bar>of_int mx\<bar> * 2 powi kx"
    by (simp add: abs_mult)
  hence "\<bar>of_int n :: rat\<bar> \<le> \<bar>of_int mx\<bar>" by simp
  hence "(of_int \<bar>n\<bar> :: rat) \<le> of_int \<bar>mx\<bar>" by simp
  hence "\<bar>n\<bar> \<le> \<bar>mx\<bar>" by (simp only: of_int_le_iff)
  hence "\<bar>n\<bar> < 2 ^ 53" using assms(1) by linarith
  thus ?thesis unfolding eq is_float_def by blast
qed

lemma is_float_minus: "is_float x \<Longrightarrow> is_float (- x)"
proof -
  assume "is_float x"
  then obtain m k where mk: "\<bar>m\<bar> < 2 ^ 53" "x = of_int m * 2 powi k" by (auto simp: is_float_def)
  have "- x = of_int (- m) * 2 powi k" "\<bar>- m\<bar> < 2 ^ 53" using mk by simp_all
  thus ?thesis unfolding is_float_def by blast
qed

lemma sterbenz:
  assumes "is_float x" "is_float y" "y / 2 \<le> x" "x \<le> 2 * y"
  shows "is_float (x - y)"
proof -
  obtain mx kx where x: "\<bar>mx\<bar> < 2 ^ 53" "x = of_int mx * 2 powi kx"
    using assms(1) by (auto simp: is_float_def)
  obtain my ky where y: "\<bar>my\<bar> < 2 ^ 53" "y = of_int my * 2 powi ky"
    using assms(2) by (auto simp: is_float_def)
  have y0: "0 \<le> y" using assms(3,4) by linarith
  have x0: "0 \<le> x" using assms(3) y0 by linarith
  have dx: "\<bar>x - y\<bar> \<le> \<bar>x\<bar>" using assms(3,4) x0 y0 by linarith
  have dy: "\<bar>y - x\<bar> \<le> \<bar>y\<bar>" using assms(3,4) x0 y0 by linarith
  show ?thesis
  proof (cases "kx \<le> ky")
    case True
    from sterbenz_aux[OF x(1) True] dx show ?thesis unfolding x(2) y(2) by blast
  next
    case False
    hence le: "ky \<le> kx" by simp
    from sterbenz_aux[OF y(1) le] dy have "is_float (y - x)" unfolding x(2) y(2) by blast
    from is_float_minus[OF this] show ?thesis by simp
  qed
qed

lemma fl_rel_bounds:
  assumes "0 \<le> x"
  shows "x - x / 2 ^ 53 \<le> fl x" "fl x \<le> x + x / 2 ^ 53"
proof -
  have "\<bar>fl x - x\<bar> \<le> x / 2 ^ 53" using fl_error[of x] assms by simp
  thus "x - x / 2 ^ 53 \<le> fl x" "fl x \<le> x + x / 2 ^ 53" by linarith+
qed

lemma fl_zero: "fl 0 = 0"
  by (simp add: fl_def)

lemma fl_coarse_bounds:
  assumes "0 \<le> x"
  shows "7/8 * x \<le> fl x" "fl x \<le> 9/8 * x"
proof -
  have "x / 2 ^ 53 \<le> x / 8" using assms by (intro divide_left_mono) auto
  thus "7/8 * x \<le> fl x" "fl x \<le> 9/8 * x" using fl_rel_bounds[OF assms] by linarith+
qed

section \<open>Chunk planning: the intervals\<close>

lemma plan_chunks_Inr:
  assumes "C \<noteq> 0"
  shows "\<exists>ts. plan_chunks inp D C td = Inr ts \<and> length ts = nat C \<and> map chunk_id ts = [0 .. C - 1]"
  using assms by (simp add: plan_chunks_def Let_def comp_def)

lemma plan_chunks_nth:
  assumes "1 \<le> C" "C < 2 ^ 53" "plan_chunks inp D C td = Inr ts" "i < nat C"
  shows "start (ts ! i) = fl (of_nat i * fl (D / of_int C))"
    and "int i < C - 1 \<Longrightarrow> duration (ts ! i) = fl (D / of_int C)"
    and "int i = C - 1 \<Longrightarrow> duration (ts ! i) = fl (D - start (ts ! i))"
proof -
  have c: "float_of_int C = of_int C" using assms(1,2) by (intro float_of_int_exact) simp
  have i: "float_of_int (int i) = of_nat i" using assms(2,4) 
    by (subst float_of_int_exact) auto
  have n: "[0 .. C - 1] ! i = int i" using assms(4) by (subst nth_upto) auto
  have l: "i < length [0 .. C - 1]" using assms(4) by simp
  have ts: "ts = map (\<lambda>i.
                  let st = fl (float_of_int i * fl (D / of_int C));
                      chunk_dur = (if i < C - 1 then fl (D / of_int C)
                                   else fl (D - st))
                  in \<lparr>chunk_id = i, start = st, duration = chunk_dur,
                      input_path = inp,
                      output_path = path_join td (''chunk_'' @ fmt_03d i @ ''.mp4'')\<rparr>)
                [0 .. C - 1]"
    using assms(1,3) by (simp add: plan_chunks_def Let_def c)
  show "start (ts ! i) = fl (of_nat i * fl (D / of_int C))"
    unfolding ts by (simp only: nth_map[OF l] n i Let_def chunk_task.simps)
  show "int i < C - 1 \<Longrightarrow> duration (ts ! i) = fl (D / of_int C)"
    unfolding ts by (simp only: nth_map[OF l] n i Let_def chunk_task.simps if_True)
  show "int i = C - 1 \<Longrightarrow> duration (ts ! i) = fl (D - start (ts ! i))"
    unfolding ts by (simp add: nth_map[OF l] n i Let_def del: upto.simps)
qed

text \<open>Adjacent boundaries: the end of task \<open>i\<close> and the start of task \<open>i + 1\<close>.\<close>

lemma boundary_gap:
  assumes "0 \<le> cd"
  shows "\<bar>fl (of_nat i * cd) + cd - fl (of_nat (Suc i) * cd)\<bar> \<le> of_nat (2 * i + 1) * cd / 2 ^ 53"
proof -
  have a: "\<bar>fl (of_nat i * cd) - of_nat i * cd\<bar> \<le> of_nat i * cd / 2 ^ 53"
    using fl_error[of "of_nat i * cd"] assms by (simp add: abs_mult)
  have b: "\<bar>fl (of_nat (Suc i) * cd) - of_nat (Suc i) * cd\<bar> \<le> of_nat (Suc i) * cd / 2 ^ 53"
    using fl_error[of "of_nat (Suc i) * cd"] assms by (simp only: abs_mult abs_of_nat abs_of_nonneg)
  have "fl (of_nat i * cd) + cd - fl (of_nat (Suc i) * cd)
        = (fl (of_nat i * cd) - of_nat i * cd) - (fl (of_nat (Suc i) * cd) - of_nat (Suc i) * cd)"
    by (simp add: algebra_simps)
  hence "\<bar>fl (of_nat i * cd) + cd - fl (of_nat (Suc i) * cd)\<bar>
        \<le> of_nat i * cd / 2 ^ 53 + of_nat (Suc i) * cd / 2 ^ 53"
    using a b by linarith
  also have "\<dots> = of_nat (2 * i + 1) * cd / 2 ^ 53"
    by (simp add: algebra_simps add_divide_distrib)
  finally show ?thesis .
qed

lemma last_start_range:
  assumes "0 < D" "3 \<le> C"
  defines "s \<equiv> fl (of_int (C - 1) * fl (D / of_int C))"
  shows "D / 2 \<le> s" "s \<le> 2 * D"
proof -
  define q where "q = D / of_int C"
  define cd where "cd = fl q"
  define r where "r = of_int (C - 1) * q"
  define p where "p = of_int (C - 1) * cd"
  have C0: "(0::rat) < of_int C" using assms(2) by simp
  have c1: "(0::rat) \<le> of_int (C - 1)" using assms(2) by simp
  have q0: "0 \<le> q" using assms(1) C0 by (simp add: q_def)
  have cd: "7/8 * q \<le> cd" "cd \<le> 9/8 * q" using fl_coarse_bounds[OF q0] by (simp_all add: cd_def)
  have cd0: "0 \<le> cd" using cd(1) q0 by linarith
  have p0: "0 \<le> p" using c1 cd0 by (simp add: p_def)
  have "of_int (C - 1) * (7/8 * q) \<le> of_int (C - 1) * cd"
    using cd(1) c1 by (rule mult_left_mono)
  hence pl: "7/8 * r \<le> p" by (simp add: p_def r_def algebra_simps)
  have "of_int (C - 1) * cd \<le> of_int (C - 1) * (9/8 * q)"
    using cd(2) c1 by (rule mult_left_mono)
  hence pu: "p \<le> 9/8 * r" by (simp add: p_def r_def algebra_simps)
  have s: "7/8 * p \<le> s" "s \<le> 9/8 * p"
    using fl_coarse_bounds[OF p0] by (simp_all add: s_def p_def cd_def q_def)
  have req: "r = D - q" using C0 by (simp add: r_def q_def field_simps)
  have "3 * q \<le> D"
  proof -
    have "q * 3 \<le> q * of_int C" using assms(2) q0 by (intro mult_left_mono) auto
    also have "\<dots> = D" using C0 by (simp add: q_def)
    finally show ?thesis by (simp add: mult.commute)
  qed
  hence r: "2/3 * D \<le> r" "r \<le> D" using req q0 by linarith+
  show "D / 2 \<le> s" using s(1) pl r(1) assms(1) by linarith
  show "s \<le> 2 * D" using s(2) pu r(2) assms(1) by linarith
qed

lemma last_end_exact:
  assumes "0 < D" "fl D = D" "1 \<le> C"
  defines "s \<equiv> fl (of_int (C - 1) * fl (D / of_int C))"
  shows "s + fl (D - s) = D"
proof -
  have fD: "is_float D" using assms(2) by (simp add: is_float_iff)
  consider "C = 1" | "C = 2" | "3 \<le> C" using assms(3) by linarith
  thus ?thesis
  proof cases
    case 1
    thus ?thesis using assms(2) by (simp add: s_def fl_zero)
  next
    case 2
    have h: "fl (D / 2) = D / 2" using is_float_half[OF fD] by (simp add: is_float_iff)
    have sd: "s = D / 2" using 2 by (simp add: s_def h)
    have "D - D / 2 = D / 2" by simp
    hence "fl (D - s) = D / 2" unfolding sd using h by (simp only:)
    thus ?thesis unfolding sd by simp
  next
    case 3
    from last_start_range[OF assms(1) 3] have rg: "D / 2 \<le> s" "s \<le> 2 * D"
      by (simp_all add: s_def)
    have "is_float s" unfolding s_def by (rule is_float_fl)
    from sterbenz[OF fD this] rg have "is_float (D - s)" by simp
    hence "fl (D - s) = D - s" by (simp add: is_float_iff)
    thus ?thesis by simp
  qed
qed

lemma tiles_adjacent:
  "tiles b e ts \<Longrightarrow> Suc i < length ts \<Longrightarrow> start (ts ! Suc i) = start (ts ! i) + duration (ts ! i)"
proof (induction ts arbitrary: b i)
  case Nil
  thus ?case by simp
next
  case (Cons t ts)
  show ?case
  proof (cases i)
    case 0
    with Cons.prems show ?thesis by (cases ts) auto
  next
    case (Suc j)
    from Cons.prems Suc have "tiles (start t + duration t) e ts" "Suc j < length ts"
      by auto
    from Cons.IH[OF this] Suc show ?thesis by simp
  qed
qed

lemma fl_tenth: "fl (1 / of_int 10) = 3602879701896397 / 2 ^ 55"
  by code_simp

lemma fl_5_tenths: "fl (of_nat 5 * fl (1 / of_int 10)) = 1 / 2"
  by code_simp

lemma fl_6_tenths: "fl (of_nat 6 * fl (1 / of_int 10)) = 5404319552844596 / 2 ^ 53"
  by code_simp

text \<open>Scenario 1 of the specification: 30 s and 4 workers, hence 6 segments.\<close>

lemma scenario_1_boundaries:
  "map (\<lambda>t. (chunk_id t, start t, start t + duration t))
       (planned (plan_chunks ''in.mp4'' 30 6 ''tmp''))
     = [(0, 0, 5), (1, 5, 10), (2, 10, 15), (3, 15, 20), (4, 20, 25), (5, 25, 30)]"
  by code_simp

text \<open>
  C1, as stated: for every duration \<open>D > 0\<close> and segment count \<open>C \<ge> 1\<close> the intervals
  \<open>[start, start + duration)\<close> of the planned tasks are contiguous with no gap or overlap.
  It fails in binary64 at \<open>D = 1.0\<close>, \<open>C = 10\<close> (7 workers): task 5 starts at
  \<open>5 * 0.1 = 0.5\<close> and lasts \<open>0.1\<close>, task 6 starts at \<open>6 * 0.1 = 0.6000000000000001\<close>, which
  is beyond the end of task 5. Each start is the rounded product \<open>i * (D / C)\<close>; the starts
  are not accumulated from the durations.
\<close>

theorem plan_chunks_gap_counterexample:
  "start (planned (plan_chunks ''in.mp4'' 1 10 ''tmp'') ! 5)
     + duration (planned (plan_chunks ''in.mp4'' 1 10 ''tmp'') ! 5)
     < start (planned (plan_chunks ''in.mp4'' 1 10 ''tmp'') ! 6)
   \<and> \<not> tiles 0 1 (planned (plan_chunks ''in.mp4'' 1 10 ''tmp''))"
proof -
  from plan_chunks_Inr[of 10 "''in.mp4''" 1 "''tmp''"]
  obtain ts where ts: "plan_chunks ''in.mp4'' 1 10 ''tmp'' = Inr ts" "length ts = nat 10"
    by auto
  have p: "planned (plan_chunks ''in.mp4'' 1 10 ''tmp'') = ts" by (simp add: planned_def ts(1))
  have c: "(1::int) \<le> 10" "(10::int) < 2 ^ 53" by simp_all
  note nth = plan_chunks_nth[OF c ts(1)]
  have "start (ts ! 5) = fl (of_nat 5 * fl (1 / of_int 10))" by (rule nth(1)) simp
  hence s5: "start (ts ! 5) = 1 / 2" by (simp only: fl_5_tenths)
  have "duration (ts ! 5) = fl (1 / of_int 10)" by (rule nth(2)) simp_all
  hence d5: "duration (ts ! 5) = 3602879701896397 / 2 ^ 55" by (simp only: fl_tenth)
  have "start (ts ! 6) = fl (of_nat 6 * fl (1 / of_int 10))" by (rule nth(1)) simp
  hence s6: "start (ts ! 6) = 5404319552844596 / 2 ^ 53" by (simp only: fl_6_tenths)
  have lt: "start (ts ! 5) + duration (ts ! 5) < start (ts ! 6)"
    unfolding s5 d5 s6 by simp
  have "\<not> tiles 0 1 ts"
  proof
    assume "tiles 0 1 ts"
    from tiles_adjacent[OF this, of 5] ts(2) have "start (ts ! Suc 5) = start (ts ! 5) + duration (ts ! 5)"
      by simp
    moreover have "Suc 5 = 6" by simp
    ultimately show False using lt by simp
  qed
  thus ?thesis using lt unfolding p by blast
qed

text \<open>
  C1, amended: for every float duration \<open>D > 0\<close> and segment count \<open>1 \<le> C < 2^53\<close>,
  \<^verbatim>\<open>plan_chunks\<close> returns exactly \<open>C\<close> tasks whose ids are \<open>0 .. C-1\<close> in order; the first
  interval starts at 0 and the last one ends at \<open>D\<close> exactly (the last task absorbs the
  rounding remainder); every task but the last has the duration \<open>D / C\<close> (rounded), and the
  end of task \<open>i\<close> differs from the start of task \<open>i + 1\<close> by at most the rounding error
  \<open>(2 i + 1) * (D / C) * 2^-53\<close>.
\<close>

theorem plan_chunks_tiling:
  assumes "0 < D" "fl D = D" "1 \<le> C" "C < 2 ^ 53"
  shows "\<exists>ts. plan_chunks inp D C td = Inr ts \<and> length ts = nat C \<and>
           map chunk_id ts = [0 .. C - 1] \<and>
           start (ts ! 0) = 0 \<and>
           (\<forall>i. Suc i < nat C \<longrightarrow>
                duration (ts ! i) = fl (D / of_int C) \<and>
                \<bar>start (ts ! i) + duration (ts ! i) - start (ts ! Suc i)\<bar>
                  \<le> of_nat (2 * i + 1) * fl (D / of_int C) / 2 ^ 53) \<and>
           start (last ts) + duration (last ts) = D"
proof -
  from plan_chunks_Inr[of C inp D td] assms(3)
  obtain ts where ts: "plan_chunks inp D C td = Inr ts" "length ts = nat C"
    "map chunk_id ts = [0 .. C - 1]" by auto
  note nth = plan_chunks_nth[OF assms(3,4) ts(1)]
  define cd where "cd = fl (D / of_int C)"
  have cd0: "0 \<le> cd" unfolding cd_def using assms(1,3) by (intro fl_nonneg) simp
  have s0: "start (ts ! 0) = 0" using nth(1)[of 0] assms(3) by (simp add: fl_zero)
  have mid: "duration (ts ! i) = cd \<and>
        \<bar>start (ts ! i) + duration (ts ! i) - start (ts ! Suc i)\<bar>
          \<le> of_nat (2 * i + 1) * cd / 2 ^ 53" if i: "Suc i < nat C" for i
  proof -
    have d: "duration (ts ! i) = cd" using nth(2)[of i] i by (simp add: cd_def)
    have a: "start (ts ! i) = fl (of_nat i * cd)" using nth(1)[of i] i by (simp add: cd_def)
    have b: "start (ts ! Suc i) = fl (of_nat (Suc i) * cd)"
      using nth(1)[of "Suc i"] i by (simp only: cd_def)
    show ?thesis unfolding d a b using boundary_gap[OF cd0, of i] by simp
  qed
  have ne: "ts \<noteq> []" using ts(2) assms(3) by auto
  have l: "last ts = ts ! (nat C - 1)" using ne ts(2) by (simp add: last_conv_nth)
  have li: "nat C - 1 < nat C" "int (nat C - 1) = C - 1" using assms(3) by auto
  have "(of_nat (nat C - 1) :: rat) = of_int (C - 1)" using li(2) by (metis of_int_of_nat_eq)
  hence ls: "start (last ts) = fl (of_int (C - 1) * cd)"
    using nth(1)[OF li(1)] unfolding l cd_def by simp
  have ld: "duration (last ts) = fl (D - start (last ts))"
    using nth(3)[OF li(1) li(2)] unfolding l .
  have e: "start (last ts) + duration (last ts) = D"
    unfolding ld unfolding ls cd_def using last_end_exact[OF assms(1,2,3)] .
  show ?thesis using ts s0 mid e unfolding cd_def by blast
qed

theorem plan_chunks_tiling_witness:
  "(0::rat) < 30 \<and> fl 30 = 30 \<and> (1::int) \<le> 6 \<and> (6::int) < 2 ^ 53 \<and>
   (\<exists>ts. plan_chunks ''in.mp4'' 30 6 ''tmp'' = Inr ts \<and> length ts = nat 6 \<and>
           map chunk_id ts = [0 .. 6 - 1] \<and>
           start (ts ! 0) = 0 \<and>
           (\<forall>i. Suc i < nat 6 \<longrightarrow>
                duration (ts ! i) = fl (30 / of_int 6) \<and>
                \<bar>start (ts ! i) + duration (ts ! i) - start (ts ! Suc i)\<bar>
                  \<le> of_nat (2 * i + 1) * fl (30 / of_int 6) / 2 ^ 53) \<and>
           start (last ts) + duration (last ts) = 30)"
proof -
  have a: "(0::rat) < 30" by simp
  have h: "fl 30 = 30" using fl_exact[of 30 0] by simp
  have b: "(1::int) \<le> 6" by simp
  have c: "(6::int) < 2 ^ 53" by simp
  show ?thesis
    by (rule conjI[OF a conjI[OF h conjI[OF b conjI[OF c plan_chunks_tiling[OF a h b c]]]]])
qed

section \<open>Segment count\<close>

text \<open>
  C2, as stated: for every worker count \<open>W \<ge> 1\<close> the number of segments is
  \<open>max(W, round(1.5 W))\<close>. It fails at \<open>W = 1\<close>: the code truncates with \<^verbatim>\<open>int()\<close> and
  plans one segment, while 1.5 rounds to 2 (to nearest, with ties up or to even).
\<close>

theorem num_chunks_round_counterexample:
  "num_chunks_of 1 = 1 \<and> max (1::int) (round (3/2 * (of_int 1 :: rat))) = 2
     \<and> max (1::int) (round_half_even (3/2 * of_int 1)) = 2"
  by code_simp

text \<open>
  C2, amended: for every worker count \<open>1 \<le> W < 2^51\<close> (where \<open>1.5 W\<close> is computed without
  rounding) the number of segments is \<open>max(W, floor(1.5 W))\<close>, which is \<open>W + W div 2\<close>.
\<close>

theorem num_chunks_floor:
  assumes "1 \<le> W" "W < 2 ^ 51"
  shows "num_chunks_of W = max W \<lfloor>3/2 * (of_int W :: rat)\<rfloor> \<and> num_chunks_of W = W + W div 2"
proof -
  have a: "float_of_int W = of_int W" using assms by (intro float_of_int_exact) simp
  have "\<bar>3 * W\<bar> < 2 ^ 53" using assms by simp
  from fl_exact[OF this, of "-1"]
  have b: "fl (of_int W * (3/2)) = of_int W * (3/2)" by (simp add: power_int_minus field_simps)
  have c: "\<lfloor>3/2 * (of_int W :: rat)\<rfloor> = W + W div 2"
  proof -
    have "3/2 * (of_int W :: rat) = of_int (3 * W) / of_int 2" by simp
    hence "\<lfloor>3/2 * (of_int W :: rat)\<rfloor> = (3 * W) div 2" by (simp only: floor_divide_of_int_eq)
    thus ?thesis by linarith
  qed
  have "0 \<le> (of_int W * (3/2) :: rat)" using assms by simp
  hence "py_int (of_int W * (3/2)) = \<lfloor>of_int W * (3/2) :: rat\<rfloor>" by (rule py_int_nonneg)
  hence "num_chunks_of W = max \<lfloor>of_int W * (3/2) :: rat\<rfloor> W"
    unfolding num_chunks_of_def Let_def a b by (simp only:)
  thus ?thesis using c assms by (simp add: mult.commute max_def)
qed

theorem num_chunks_floor_witness:
  "(1::int) \<le> 4 \<and> (4::int) < 2 ^ 51 \<and> num_chunks_of 4 = 6 \<and> num_chunks_of 5 = 7"
  using num_chunks_floor[of 4] num_chunks_floor[of 5] by simp

section \<open>The parallel run: failed segments\<close>

lemma run_ffmpeg_log: "cmd_log (snd (run_ffmpeg ev cmd w)) = cmd_log w @ [cmd]"
  by (simp add: run_ffmpeg_def Let_def)

lemma run_ffmpeg_files:
  "files (snd (run_ffmpeg ev cmd w)) =
     (if leaves_output (ffmpeg ev cmd (files w)) then insert (cmd_output cmd) (files w) else files w)"
  by (simp add: run_ffmpeg_def Let_def)

lemma run_ffmpeg_fst: "fst (run_ffmpeg ev cmd w) = ffmpeg ev cmd (files w)"
  by (simp add: run_ffmpeg_def Let_def)

lemma process_chunk_props:
  assumes "process_chunk ev t filt w = (x, w')"
  shows "cmd_log w' = cmd_log w @ [Encode t filt]"
    and "files w' \<subseteq> insert (output_path t) (files w)"
    and "x = Inr r \<Longrightarrow> result_id r = chunk_id t"
  using assms
  by (auto simp: process_chunk_def run_ffmpeg_def Let_def split: if_splits captured_bytes.splits)

lemma future_results_Cons:
  "future_results (x # fs) = Inr rs \<longleftrightarrow>
     (\<exists>r rs'. x = Inr r \<and> future_results fs = Inr rs' \<and> rs = r # rs')"
  by (cases x) (auto split: sum.splits)

lemma run_pool_props_conj:
  "run_pool ev filt ts w = (fs, w') \<Longrightarrow>
     (\<forall>rs. future_results fs = Inr rs \<longrightarrow> map result_id rs = map chunk_id ts) \<and>
     cmd_log w' = cmd_log w @ map (\<lambda>t. Encode t filt) ts \<and>
     files w' \<subseteq> files w \<union> output_path ` set ts"
proof (induction ts arbitrary: w fs w')
  case Nil
  thus ?case by simp
next
  case (Cons t ts)
  obtain x w1 where p: "process_chunk ev t filt w = (x, w1)" by (cases "process_chunk ev t filt w")
  obtain fs' w2 where q: "run_pool ev filt ts w1 = (fs', w2)" by (cases "run_pool ev filt ts w1")
  have eq: "fs = x # fs'" "w' = w2" using Cons.prems by (simp_all add: p q)
  note ih = Cons.IH[OF q]
  have ids: "\<forall>rs. future_results (x # fs') = Inr rs \<longrightarrow> map result_id rs = map chunk_id (t # ts)"
  proof (intro allI impI)
    fix rs
    assume "future_results (x # fs') = Inr rs"
    then obtain r rs' where r: "x = Inr r" "future_results fs' = Inr rs'" "rs = r # rs'"
      unfolding future_results_Cons by blast
    from process_chunk_props(3)[OF p r(1)] ih r(2) show "map result_id rs = map chunk_id (t # ts)"
      unfolding r(3) by simp
  qed
  have log: "cmd_log w2 = cmd_log w @ map (\<lambda>t. Encode t filt) (t # ts)"
    using ih process_chunk_props(1)[OF p] by simp
  have fl: "files w2 \<subseteq> files w \<union> output_path ` set (t # ts)"
    using ih process_chunk_props(2)[OF p] by auto
  from ids log fl show ?case unfolding eq by blast
qed

lemma run_pool_props:
  assumes "run_pool ev filt ts w = (fs, w')"
  shows "future_results fs = Inr rs \<Longrightarrow> map result_id rs = map chunk_id ts"
    and "cmd_log w' = cmd_log w @ map (\<lambda>t. Encode t filt) ts"
    and "files w' \<subseteq> files w \<union> output_path ` set ts"
  using run_pool_props_conj[OF assms] by blast+

lemma string_of_nat_digits: "set (string_of_nat n) \<subseteq> set ''0123456789''"
proof (induction n rule: string_of_nat.induct)
  case (1 n)
  have d: "\<And>k. k < 10 \<Longrightarrow> digit_char k \<in> set ''0123456789''"
    unfolding digit_char_def by (rule nth_mem) simp
  show ?case
  proof (cases "n < 10")
    case True
    thus ?thesis using d[of n] by (subst string_of_nat.simps) simp
  next
    case False
    have "n mod 10 < 10" by simp
    from d[OF this] 1[OF False] False show ?thesis
      by (subst string_of_nat.simps) simp
  qed
qed


lemma num_chunks_of_ge: "num_workers \<le> num_chunks_of num_workers"
  by (simp add: num_chunks_of_def Let_def)

lemma planned_Inr:
  assumes "1 \<le> W"
  shows "plan_chunks inp D (num_chunks_of W) td = Inr (planned (plan_chunks inp D (num_chunks_of W) td))"
    and "map chunk_id (planned (plan_chunks inp D (num_chunks_of W) td)) = [0 .. num_chunks_of W - 1]"
    and "length (planned (plan_chunks inp D (num_chunks_of W) td)) = nat (num_chunks_of W)"
proof -
  have "num_chunks_of W \<noteq> 0" using num_chunks_of_ge[of W] assms by linarith
  from plan_chunks_Inr[OF this, of inp D td]
  obtain ts where ts: "plan_chunks inp D (num_chunks_of W) td = Inr ts"
    "length ts = nat (num_chunks_of W)" "map chunk_id ts = [0 .. num_chunks_of W - 1]" by blast
  have p: "planned (plan_chunks inp D (num_chunks_of W) td) = ts" by (simp add: ts(1) planned_def)
  show "plan_chunks inp D (num_chunks_of W) td = Inr (planned (plan_chunks inp D (num_chunks_of W) td))"
    unfolding p by (rule ts(1))
  show "map chunk_id (planned (plan_chunks inp D (num_chunks_of W) td)) = [0 .. num_chunks_of W - 1]"
    unfolding p by (rule ts(3))
  show "length (planned (plan_chunks inp D (num_chunks_of W) td)) = nat (num_chunks_of W)"
    unfolding p by (rule ts(2))
qed

lemma filter_sort_key_length:
  "length (filter P (sort_key f xs)) = length (filter P xs)"
proof -
  have "mset (filter P (sort_key f xs)) = mset (filter P xs)" by simp
  thus ?thesis by (metis size_mset)
qed

text \<open>The failure branch of \<^verbatim>\<open>run_parallel\<close>, and the branch in which a worker raised.\<close>

lemma run_parallel_failed_branch:
  assumes "1 \<le> W" "fst (pool_run ev inp md W filt td w) = Inr completed"
    "\<exists>r \<in> set completed. \<not> success r"
  shows "run_parallel ev inp outp md W filt td w =
           (Inl (RuntimeError
                  (string_of_nat (length (filter (\<lambda>r. \<not> success r) completed))
                   @ '' chunks failed'')),
            snd (pool_run ev inp md W filt td w))"
proof -
  define chunks where "chunks = planned (plan_chunks inp (vm_duration md) (num_chunks_of W) td)"
  obtain futures w1 where pr: "run_pool ev filt (sort_key (finish_rank ev) chunks) w = (futures, w1)"
    by (cases "run_pool ev filt (sort_key (finish_rank ev) chunks) w")
  have pool: "pool_run ev inp md W filt td w = (future_results futures, w1)"
    by (simp add: pool_run_def chunks_def[symmetric] pr)
  have fr: "future_results futures = Inr completed" using assms(2) by (simp add: pool)
  have pl: "plan_chunks inp (vm_duration md) (num_chunks_of W) td = Inr chunks"
    unfolding chunks_def by (rule planned_Inr(1)[OF assms(1)])
  have "filter (\<lambda>r. \<not> success r) completed \<noteq> []"
    using assms(3) by (simp add: filter_empty_conv)
  hence "length (filter (\<lambda>r. \<not> success r) (sort_key result_id completed)) \<noteq> 0"
    by (simp add: filter_sort_key_length)
  hence ne: "filter (\<lambda>r. \<not> success r) (sort_key result_id completed) \<noteq> []" by simp
  have W: "\<not> W \<le> 0" using assms(1) by simp
  show ?thesis
    unfolding run_parallel_def pl pool
    using W ne by (simp add: pr fr Let_def filter_sort_key_length)
qed

lemma run_parallel_worker_raised:
  assumes "1 \<le> W" "fst (pool_run ev inp md W filt td w) = Inl e"
  shows "run_parallel ev inp outp md W filt td w = (Inl e, snd (pool_run ev inp md W filt td w))"
proof -
  define chunks where "chunks = planned (plan_chunks inp (vm_duration md) (num_chunks_of W) td)"
  obtain futures w1 where pr: "run_pool ev filt (sort_key (finish_rank ev) chunks) w = (futures, w1)"
    by (cases "run_pool ev filt (sort_key (finish_rank ev) chunks) w")
  have pool: "pool_run ev inp md W filt td w = (future_results futures, w1)"
    by (simp add: pool_run_def chunks_def[symmetric] pr)
  have fr: "future_results futures = Inl e" using assms(2) by (simp add: pool)
  have pl: "plan_chunks inp (vm_duration md) (num_chunks_of W) td = Inr chunks"
    unfolding chunks_def by (rule planned_Inr(1)[OF assms(1)])
  have W: "\<not> W \<le> 0" using assms(1) by simp
  show ?thesis
    unfolding run_parallel_def pl pool
    using W by (simp add: pr fr)
qed

lemma pool_run_props:
  shows "cmd_log (snd (pool_run ev inp md W filt td w)) =
           cmd_log w @ map (\<lambda>t. Encode t filt)
             (sort_key (finish_rank ev)
                (planned (plan_chunks inp (vm_duration md) (num_chunks_of W) td)))"
    and "files (snd (pool_run ev inp md W filt td w)) \<subseteq>
           files w \<union> output_path ` set (planned (plan_chunks inp (vm_duration md) (num_chunks_of W) td))"
    and "fst (pool_run ev inp md W filt td w) = Inr completed \<Longrightarrow>
         map result_id completed =
           map chunk_id (sort_key (finish_rank ev)
                (planned (plan_chunks inp (vm_duration md) (num_chunks_of W) td)))"
proof -
  define chunks where "chunks = planned (plan_chunks inp (vm_duration md) (num_chunks_of W) td)"
  obtain futures w1 where pr: "run_pool ev filt (sort_key (finish_rank ev) chunks) w = (futures, w1)"
    by (cases "run_pool ev filt (sort_key (finish_rank ev) chunks) w")
  have pool: "pool_run ev inp md W filt td w = (future_results futures, w1)"
    by (simp add: pool_run_def chunks_def[symmetric] pr)
  note props = run_pool_props[OF pr]
  show "cmd_log (snd (pool_run ev inp md W filt td w)) =
           cmd_log w @ map (\<lambda>t. Encode t filt)
             (sort_key (finish_rank ev)
                (planned (plan_chunks inp (vm_duration md) (num_chunks_of W) td)))"
    unfolding pool chunks_def[symmetric] using props(2) by simp
  show "files (snd (pool_run ev inp md W filt td w)) \<subseteq>
           files w \<union> output_path ` set (planned (plan_chunks inp (vm_duration md) (num_chunks_of W) td))"
    unfolding pool chunks_def[symmetric] using props(3) by simp
  show "fst (pool_run ev inp md W filt td w) = Inr completed \<Longrightarrow>
        map result_id completed =
           map chunk_id (sort_key (finish_rank ev)
                (planned (plan_chunks inp (vm_duration md) (num_chunks_of W) td)))"
    unfolding pool chunks_def[symmetric] using props(1)[of completed] by simp
qed

lemma pool_segment_2_fails:
  "map_sum id (map (\<lambda>r. (result_id r, success r, error r)))
       (fst (pool_run env_segment_2_fails ''in.mp4'' video_3s 2 ''unsharp'' ''tmp'' world_0))
     = Inr [(0, True, None), (1, True, None), (2, False, Some ''boom'')]"
  by code_simp

text \<open>
  A worker that raises: with 2 workers (3 segments), when the encode of segment 1 exits
  non-zero with a diagnostic that is not valid UTF-8 and the encode of segment 2 exits non-zero
  with a diagnostic that is, \<^verbatim>\<open>run_parallel\<close> raises the \<^verbatim>\<open>UnicodeDecodeError\<close> of the first
  worker, not \<^verbatim>\<open>RuntimeError("2 chunks failed")\<close>; all three encodes have run.
\<close>

lemma run_parallel_undecodable_diagnostic:
  "fst (run_parallel env_stderr_not_utf8 ''in.mp4'' ''out.mp4'' video_3s 2 ''unsharp'' ''tmp'' world_0)
     = Inl (UnicodeDecodeError ''invalid start byte'')
   \<and> map (\<lambda>c. case c of Encode t f \<Rightarrow> chunk_id t | _ \<Rightarrow> - 1)
       (cmd_log (snd (run_parallel env_stderr_not_utf8 ''in.mp4'' ''out.mp4'' video_3s 2 ''unsharp''
                        ''tmp'' world_0)))
     = [0, 1, 2]"
  by code_simp

text \<open>
  C3, as stated: when a segment fails, the aggregate error names every failed segment id and
  carries the captured diagnostic text of at least the first. It fails for 2 workers
  (3 segments) when the encode of segment 2 exits non-zero with the diagnostic \<^verbatim>\<open>boom\<close>: the
  error is \<^verbatim>\<open>RuntimeError("1 chunks failed")\<close>, which holds neither the id 2 nor the diagnostic.
  The diagnostic is captured in the segment's result and dropped with it.
\<close>

theorem run_parallel_failure_message_counterexample:
  "fst (run_parallel env_segment_2_fails ''in.mp4'' ''out.mp4'' video_3s 2 ''unsharp'' ''tmp'' world_0)
     = Inl (RuntimeError ''1 chunks failed'')
   \<and> map_sum id (map (\<lambda>r. (result_id r, error r)) \<circ> filter (\<lambda>r. \<not> success r))
        (fst (pool_run env_segment_2_fails ''in.mp4'' video_3s 2 ''unsharp'' ''tmp'' world_0))
       = Inr [(2, Some ''boom'')]
   \<and> \<not> sublist (string_of_nat 2) ''1 chunks failed''
   \<and> \<not> sublist ''boom'' ''1 chunks failed''"
  by code_simp

text \<open>
  C3, amended: if every worker of the pool returned its segment result and any of these
  results reports failure, \<^verbatim>\<open>run_parallel\<close> (with at least one worker) fails once every task of
  the pool has run, with \<^verbatim>\<open>RuntimeError("<k> chunks failed")\<close> where \<open>k\<close> is the number of failed
  segments; the only commands run are the segment encodes (the merge is not invoked), and an
  output path that did not exist before and is not a segment path does not exist afterwards.
  A worker returns no result when its encode fails with a diagnostic that is not valid UTF-8;
  that case is not part of the statement.
\<close>

theorem run_parallel_failure:
  assumes "1 \<le> W" "fst (pool_run ev inp md W filt td w) = Inr completed"
    "\<exists>r \<in> set completed. \<not> success r"
  shows "run_parallel ev inp outp md W filt td w =
           (Inl (RuntimeError
                  (string_of_nat (length (filter (\<lambda>r. \<not> success r) completed))
                   @ '' chunks failed'')),
            snd (pool_run ev inp md W filt td w))
       \<and> cmd_log (snd (pool_run ev inp md W filt td w)) =
           cmd_log w @ map (\<lambda>t. Encode t filt)
             (sort_key (finish_rank ev)
                (planned (plan_chunks inp (vm_duration md) (num_chunks_of W) td)))
       \<and> (outp \<notin> files w \<and>
            outp \<notin> output_path ` set (planned (plan_chunks inp (vm_duration md) (num_chunks_of W) td))
            \<longrightarrow> outp \<notin> files (snd (pool_run ev inp md W filt td w)))"
  using run_parallel_failed_branch[OF assms, of outp] pool_run_props(1,2)[of ev inp md W filt td w]
  by blast

theorem run_parallel_failure_witness:
  "(1::int) \<le> 2
   \<and> fst (pool_run env_segment_2_fails ''in.mp4'' video_3s 2 ''unsharp'' ''tmp'' world_0)
       = Inr (returned (fst (pool_run env_segment_2_fails ''in.mp4'' video_3s 2 ''unsharp'' ''tmp''
                               world_0)))
   \<and> map success (returned (fst (pool_run env_segment_2_fails ''in.mp4'' video_3s 2 ''unsharp''
                                     ''tmp'' world_0)))
       = [True, True, False]
   \<and> run_parallel env_segment_2_fails ''in.mp4'' ''out.mp4'' video_3s 2 ''unsharp'' ''tmp'' world_0
       = (Inl (RuntimeError ''1 chunks failed''),
          snd (pool_run env_segment_2_fails ''in.mp4'' video_3s 2 ''unsharp'' ''tmp'' world_0))
   \<and> ''out.mp4'' \<notin> files (snd (pool_run env_segment_2_fails ''in.mp4'' video_3s 2 ''unsharp'' ''tmp'' world_0))"
proof -
  let ?P = "pool_run env_segment_2_fails ''in.mp4'' video_3s 2 ''unsharp'' ''tmp'' world_0"
  have a: "(1::int) \<le> 2" by simp
  have i: "\<not> isl (fst ?P)" by code_simp
  have c: "fst ?P = Inr (returned (fst ?P))"
    using i by (cases "fst ?P") (simp_all add: returned_def)
  have m: "map success (returned (fst ?P)) = [True, True, False]" by code_simp
  have "False \<in> set (map success (returned (fst ?P)))" unfolding m by simp
  hence b: "\<exists>r \<in> set (returned (fst ?P)). \<not> success r" by auto
  have k: "string_of_nat (length (filter (\<lambda>r. \<not> success r) (returned (fst ?P)))) @ '' chunks failed''
           = ''1 chunks failed''" by code_simp
  have o: "''out.mp4'' \<notin> files world_0 \<and>
           ''out.mp4'' \<notin> output_path ` set (planned (plan_chunks ''in.mp4'' (vm_duration video_3s) (num_chunks_of 2) ''tmp''))"
    by code_simp
  from run_parallel_failure[OF a c b, of "''out.mp4''"] k o a c m show ?thesis by simp
qed

section \<open>The parallel run: the merge\<close>

lemma upto_as_upt: "[0 .. int n - 1] = map int [0 ..< n]"
proof (induction n)
  case 0
  thus ?case by simp
next
  case (Suc n)
  have "[0 .. int (Suc n) - 1] = [0 .. int n - 1] @ [int n]"
    using upto_rec2[of 0 "int n"] by simp
  thus ?case using Suc by simp
qed

lemma lookup_paths_ok:
  "\<forall>r \<in> set rs. 0 \<le> result_id r \<and> result_id r < int (length chunks) \<Longrightarrow>
     lookup_paths chunks rs = Inr (map (\<lambda>r. output_path (chunks ! nat (result_id r))) rs)"
  by (induction rs) (auto simp: py_index_def Let_def)

lemma lookup_paths_all:
  assumes "map result_id rs = [0 .. int (length chunks) - 1]"
  shows "lookup_paths chunks rs = Inr (map output_path chunks)"
proof -
  have "set (map result_id rs) = {0 .. int (length chunks) - 1}" unfolding assms by simp
  hence "\<forall>r \<in> set rs. 0 \<le> result_id r \<and> result_id r < int (length chunks)" by auto
  from lookup_paths_ok[OF this]
  have "lookup_paths chunks rs = Inr (map (\<lambda>i. output_path (chunks ! nat i)) (map result_id rs))"
    by (simp add: comp_def)
  also have "map (\<lambda>i. output_path (chunks ! nat i)) (map result_id rs)
             = map (\<lambda>i. output_path (chunks ! i)) [0 ..< length chunks]"
    unfolding assms upto_as_upt by (simp add: comp_def)
  also have "\<dots> = map output_path (map (\<lambda>i. chunks ! i) [0 ..< length chunks])"
    by (simp add: comp_def)
  also have "\<dots> = map output_path chunks" by (simp only: map_nth)
  finally show ?thesis .
qed

lemma sorted_result_ids:
  fixes inp md W td
  assumes "1 \<le> W" "fst (pool_run ev inp md W filt td w) = Inr completed"
  defines "chunks \<equiv> planned (plan_chunks inp (vm_duration md) (num_chunks_of W) td)"
  shows "map result_id (sort_key result_id completed) = [0 .. int (length chunks) - 1]"
proof -
  have ids: "map chunk_id chunks = [0 .. num_chunks_of W - 1]"
    and len: "length chunks = nat (num_chunks_of W)"
    unfolding chunks_def using planned_Inr(2,3)[OF assms(1)] by simp_all
  have "1 \<le> num_chunks_of W" using num_chunks_of_ge[of W] assms(1) by linarith
  hence il: "int (length chunks) = num_chunks_of W" using len by simp
  have "map result_id completed = map chunk_id (sort_key (finish_rank ev) chunks)"
    unfolding chunks_def by (rule pool_run_props(3)[OF assms(2)])
  hence "mset (map result_id completed) = mset (map chunk_id chunks)" by simp
  hence m: "mset (map result_id (sort_key result_id completed)) = mset [0 .. int (length chunks) - 1]"
    unfolding ids il by simp
  have s: "sorted (map result_id (sort_key result_id completed))" by simp
  from properties_for_sort[OF m s] show ?thesis by simp
qed

lemma merge_chunks_cases:
  fixes ev paths outp td w
  defines "cf \<equiv> path_join td ''concat_list.txt''"
  defines "w0 \<equiv> w\<lparr>files := insert cf (files w)\<rparr>"
  defines "wa \<equiv> snd (run_ffmpeg ev (ConcatCopy cf outp) w0)"
  defines "wb \<equiv> snd (run_ffmpeg ev (ConcatReencode cf outp) wa)"
  shows "merge_chunks ev paths outp td w =
           (if ok (ffmpeg ev (ConcatCopy cf outp) (files w0)) then (True, wa)
            else (ok (ffmpeg ev (ConcatReencode cf outp) (files wa)), wb))"
    and "cmd_log wa = cmd_log w @ [ConcatCopy cf outp]"
    and "cmd_log wb = cmd_log w @ [ConcatCopy cf outp, ConcatReencode cf outp]"
    and "outp \<in> files wb \<longleftrightarrow>
           outp \<in> files w0 \<or> leaves_output (ffmpeg ev (ConcatCopy cf outp) (files w0))
             \<or> leaves_output (ffmpeg ev (ConcatReencode cf outp) (files wa))"
proof -
  show "merge_chunks ev paths outp td w =
           (if ok (ffmpeg ev (ConcatCopy cf outp) (files w0)) then (True, wa)
            else (ok (ffmpeg ev (ConcatReencode cf outp) (files wa)), wb))"
    unfolding merge_chunks_def wa_def wb_def w0_def cf_def
    by (simp add: Let_def run_ffmpeg_def split: prod.splits)
  show "cmd_log wa = cmd_log w @ [ConcatCopy cf outp]"
    unfolding wa_def by (simp add: run_ffmpeg_log w0_def)
  show "cmd_log wb = cmd_log w @ [ConcatCopy cf outp, ConcatReencode cf outp]"
    unfolding wb_def wa_def by (simp add: run_ffmpeg_log w0_def)
  show "outp \<in> files wb \<longleftrightarrow>
           outp \<in> files w0 \<or> leaves_output (ffmpeg ev (ConcatCopy cf outp) (files w0))
             \<or> leaves_output (ffmpeg ev (ConcatReencode cf outp) (files wa))"
    unfolding wb_def wa_def by (auto simp: run_ffmpeg_files)
qed

text \<open>The branch of \<^verbatim>\<open>run_parallel\<close> in which every segment succeeded: the merge is invoked.\<close>

lemma run_parallel_success_branch:
  fixes ev inp outp md W filt td w
  defines "chunks \<equiv> planned (plan_chunks inp (vm_duration md) (num_chunks_of W) td)"
  defines "P \<equiv> pool_run ev inp md W filt td w"
  assumes "1 \<le> W" "fst P = Inr completed" "\<forall>r \<in> set completed. success r"
  shows "run_parallel ev inp outp md W filt td w =
           (case merge_chunks ev (map output_path chunks) outp td (snd P) of
              (merge_success, w2) \<Rightarrow>
                if merge_success then (Inr (wall_time ev, sort_key result_id completed), w2)
                else (Inl (RuntimeError ''Merge failed''), w2))"
proof -
  obtain futures w1 where pr: "run_pool ev filt (sort_key (finish_rank ev) chunks) w = (futures, w1)"
    by (cases "run_pool ev filt (sort_key (finish_rank ev) chunks) w")
  have pool: "P = (future_results futures, w1)"
    by (simp add: P_def pool_run_def chunks_def[symmetric] pr)
  have fr: "future_results futures = Inr completed" using assms(4) by (simp add: pool)
  have pl: "plan_chunks inp (vm_duration md) (num_chunks_of W) td = Inr chunks"
    unfolding chunks_def by (rule planned_Inr(1)[OF assms(3)])
  have "filter (\<lambda>r. \<not> success r) completed = []"
    using assms(5) by (simp add: filter_empty_conv)
  hence "length (filter (\<lambda>r. \<not> success r) (sort_key result_id completed)) = 0"
    by (simp add: filter_sort_key_length)
  hence nf: "filter (\<lambda>r. \<not> success r) (sort_key result_id completed) = []" by simp
  have "map result_id (sort_key result_id completed) = [0 .. int (length chunks) - 1]"
    unfolding chunks_def using assms(4) unfolding P_def by (rule sorted_result_ids[OF assms(3)])
  hence lp: "lookup_paths chunks (sort_key result_id completed) = Inr (map output_path chunks)"
    by (intro lookup_paths_all) simp
  have W: "\<not> W \<le> 0" using assms(3) by simp
  show ?thesis
    unfolding run_parallel_def pl pool
    using W nf lp by (simp add: pr fr Let_def split: prod.splits)
qed

text \<open>
  C6, as stated: if both concatenations fail, no partial output file is left in place. The
  code never removes the output path: with one worker, when the stream copy exits non-zero
  after it has started to write the output and the re-encode exits non-zero too,
  \<^verbatim>\<open>run_parallel\<close> raises \<^verbatim>\<open>RuntimeError("Merge failed")\<close> and the output file, absent before
  the run, exists after it.
\<close>

theorem run_parallel_merge_partial_output_counterexample:
  "fst (run_parallel env_merge_fails ''in.mp4'' ''out.mp4'' video_3s 1 ''unsharp'' ''tmp'' world_0)
     = Inl (RuntimeError ''Merge failed'')
   \<and> ''out.mp4'' \<notin> files world_0
   \<and> ''out.mp4'' \<in> files (snd (run_parallel env_merge_fails ''in.mp4'' ''out.mp4'' video_3s 1
                                  ''unsharp'' ''tmp'' world_0))"
  by code_simp

text \<open>
  C6, amended: when every segment succeeded, \<^verbatim>\<open>run_parallel\<close> invokes the merge, which runs
  the stream-copy concatenation first and the re-encode concatenation only if the stream copy
  failed. If one of them succeeds the run returns; if both fail it raises
  \<^verbatim>\<open>RuntimeError("Merge failed")\<close>, and nothing is removed: the output path exists afterwards
  exactly if it existed before or one of the two invocations left a file there.
\<close>

theorem run_parallel_merge:
  assumes "1 \<le> W" "fst (pool_run ev inp md W filt td w) = Inr completed"
    "\<forall>r \<in> set completed. success r"
  shows
    "let results = sort_key result_id completed;
         w1 = snd (pool_run ev inp md W filt td w);
         concat_file = path_join td ''concat_list.txt'';
         w0 = w1\<lparr>files := insert concat_file (files w1)\<rparr>;
         fast = ConcatCopy concat_file outp;
         fallback = ConcatReencode concat_file outp;
         r1 = ffmpeg ev fast (files w0);
         wa = snd (run_ffmpeg ev fast w0);
         r2 = ffmpeg ev fallback (files wa);
         wb = snd (run_ffmpeg ev fallback wa)
     in (ok r1 \<longrightarrow>
           run_parallel ev inp outp md W filt td w = (Inr (wall_time ev, results), wa) \<and>
           cmd_log wa = cmd_log w1 @ [fast])
      \<and> (\<not> ok r1 \<and> ok r2 \<longrightarrow>
           run_parallel ev inp outp md W filt td w = (Inr (wall_time ev, results), wb) \<and>
           cmd_log wb = cmd_log w1 @ [fast, fallback])
      \<and> (\<not> ok r1 \<and> \<not> ok r2 \<longrightarrow>
           run_parallel ev inp outp md W filt td w = (Inl (RuntimeError ''Merge failed''), wb) \<and>
           cmd_log wb = cmd_log w1 @ [fast, fallback] \<and>
           (outp \<in> files wb \<longleftrightarrow> outp \<in> files w0 \<or> leaves_output r1 \<or> leaves_output r2))"
proof -
  note br = run_parallel_success_branch[OF assms, where outp = outp]
  note mc = merge_chunks_cases[where ev = ev and outp = outp and td = td
                and w = "snd (pool_run ev inp md W filt td w)"]
  show ?thesis
    unfolding Let_def br mc(1)
    using mc(2,3,4) by simp
qed

theorem run_parallel_merge_witness:
  "(1::int) \<le> 1
   \<and> fst (pool_run env_merge_fails ''in.mp4'' video_3s 1 ''unsharp'' ''tmp'' world_0)
       = Inr (returned (fst (pool_run env_merge_fails ''in.mp4'' video_3s 1 ''unsharp'' ''tmp''
                               world_0)))
   \<and> map success (returned (fst (pool_run env_merge_fails ''in.mp4'' video_3s 1 ''unsharp'' ''tmp''
                                     world_0)))
       = [True]
   \<and> fst (run_parallel env_merge_fails ''in.mp4'' ''out.mp4'' video_3s 1 ''unsharp'' ''tmp'' world_0)
       = Inl (RuntimeError ''Merge failed'')
   \<and> cmd_log (snd (run_parallel env_merge_fails ''in.mp4'' ''out.mp4'' video_3s 1 ''unsharp'' ''tmp''
                     world_0))
       = cmd_log (snd (pool_run env_merge_fails ''in.mp4'' video_3s 1 ''unsharp'' ''tmp'' world_0))
         @ [ConcatCopy ''tmp/concat_list.txt'' ''out.mp4'',
            ConcatReencode ''tmp/concat_list.txt'' ''out.mp4'']"
proof -
  let ?P = "pool_run env_merge_fails ''in.mp4'' video_3s 1 ''unsharp'' ''tmp'' world_0"
  have a: "(1::int) \<le> 1" by simp
  have i: "\<not> isl (fst ?P)" by code_simp
  have r: "fst ?P = Inr (returned (fst ?P))"
    using i by (cases "fst ?P") (simp_all add: returned_def)
  have m: "map success (returned (fst ?P)) = [True]"
    by code_simp
  have "set (map success (returned (fst ?P))) = {True}"
    unfolding m by simp
  hence b: "\<forall>r \<in> set (returned (fst ?P)). success r"
    by auto
  have c: "\<And>x y fs. \<not> ok (ffmpeg env_merge_fails (ConcatCopy x y) fs)"
    "\<And>x y fs. \<not> ok (ffmpeg env_merge_fails (ConcatReencode x y) fs)"
    by (simp_all add: env_merge_fails_def)
  have p: "path_join ''tmp'' ''concat_list.txt'' = ''tmp/concat_list.txt''"
    by (simp add: path_join_def)
  from run_parallel_merge[OF a r b, of "''out.mp4''"]
  show ?thesis using a r m unfolding Let_def p by (simp add: c)
qed

section \<open>Amdahl analysis: the reported values\<close>

text \<open>With one worker and a parallel run slower than the serial one, the analysis raises.\<close>

lemma amdahl_N1: "amdahl 1 2 1 = Inl ZeroDivisionError"
  by code_simp

lemma linear_estimate_vs_amdahl:
  assumes "2 \<le> N" "0 < A"
  shows "solves_amdahl A N ((of_int N - A) / (of_int N - 1) / A)"
proof -
  define n :: rat where "n = of_int N"
  have n: "2 \<le> n" using assms(1) by (simp add: n_def)
  define f where "f = (n - A) / (n - 1) / A"
  have a: "f * (n - 1) = (n - A) / A" using n by (simp add: f_def)
  have "f + (1 - f) / n = (f * (n - 1) + 1) / n" using n by (simp add: field_simps)
  also have "\<dots> = 1 / A" unfolding a using n assms(2) by (simp add: field_simps)
  finally have "f + (1 - f) / n = 1 / A" .
  moreover have "1 / A \<noteq> 0" using assms(2) by simp
  ultimately show ?thesis using assms(2) unfolding solves_amdahl_def f_def n_def by simp
qed

text \<open>Error of the quotient of two perturbed numbers.\<close>

lemma quotient_error:
  fixes t c e1 e2 :: rat
  assumes "0 \<le> t" "t \<le> 1" "1/2 \<le> c" "c \<le> 1" "\<bar>e1\<bar> \<le> 3 * u" "\<bar>e2\<bar> \<le> 2 * u" "0 \<le> u" "u \<le> 1/16"
  shows "\<bar>(t + e1) / (c + e2) - t / c\<bar> \<le> 40 * u"
proof -
  have den: "1/4 \<le> c + e2" using assms by linarith
  have c0: "0 < c" using assms by linarith
  have eq: "(t + e1) / (c + e2) - t / c = (c * e1 - t * e2) / (c * (c + e2))"
    using den c0 by (simp add: field_simps)
  have "\<bar>c * e1\<bar> \<le> 1 * (3 * u)"
    unfolding abs_mult using assms by (intro mult_mono) auto
  moreover have "\<bar>t * e2\<bar> \<le> 1 * (2 * u)"
    unfolding abs_mult using assms by (intro mult_mono) auto
  ultimately have nm: "\<bar>c * e1 - t * e2\<bar> \<le> 5 * u" by linarith
  have "1/2 * (1/4) \<le> c * (c + e2)" using assms(3) den by (intro mult_mono) auto
  hence d8: "1/8 \<le> c * (c + e2)" by simp
  have "\<bar>(c * e1 - t * e2) / (c * (c + e2))\<bar> = \<bar>c * e1 - t * e2\<bar> / (c * (c + e2))"
    using d8 by (simp add: abs_divide)
  also have "\<dots> \<le> 5 * u / (c * (c + e2))"
    using nm d8 by (intro divide_right_mono) auto
  also have "\<dots> \<le> 5 * u / (1/8)"
    using d8 assms(7) by (intro divide_left_mono) auto
  finally show ?thesis unfolding eq by simp
qed

lemma clamp_lipschitz:
  fixes x y :: rat
  shows "\<bar>max 0 (min 1 x) - max 0 (min 1 y)\<bar> \<le> \<bar>x - y\<bar>"
  by (auto simp: max_def min_def)

lemma fl_abs_error: "\<bar>x\<bar> \<le> b \<Longrightarrow> \<bar>fl x - x\<bar> \<le> b / 2 ^ 53"
proof -
  assume "\<bar>x\<bar> \<le> b"
  hence "\<bar>x\<bar> / 2 ^ 53 \<le> b / 2 ^ 53" by (intro divide_right_mono) auto
  thus ?thesis using fl_error[of x] by linarith
qed

lemma serial_fraction_error:
  fixes A n :: rat
  assumes "2 \<le> n" "0 \<le> A" "A < n"
  defines "numer \<equiv> fl (1 - fl (A / n))" and "denom \<equiv> fl (1 - fl (1 / n))"
  shows "1/4 \<le> denom" "\<bar>fl (numer / denom) - (n - A) / (n - 1)\<bar> \<le> 1 / 2 ^ 47"
proof -
  define u :: rat where "u = 1 / 2 ^ 53"
  have u: "0 \<le> u" "u \<le> 1/16" by (simp_all add: u_def)
  define a where "a = A / n"
  define b where "b = 1 / n"
  have a: "0 \<le> a" "a < 1" using assms(1-3) by (simp_all add: a_def)
  have b: "0 < b" "b \<le> 1/2" using assms(1) by (simp_all add: b_def field_simps)
  have "\<bar>a\<bar> \<le> 1" using a by simp
  from fl_abs_error[OF this] have x1: "\<bar>fl a - a\<bar> \<le> 1 * u" by (simp add: u_def)
  have "\<bar>1 - fl a\<bar> \<le> 2" using x1 a u by linarith
  from fl_abs_error[OF this] have "\<bar>fl (1 - fl a) - (1 - fl a)\<bar> \<le> 2 * u" by (simp add: u_def)
  hence e1: "\<bar>fl (1 - fl a) - (1 - a)\<bar> \<le> 3 * u" using x1 by linarith
  have "\<bar>b\<bar> \<le> 1" using b by simp
  from fl_abs_error[OF this] have y1: "\<bar>fl b - b\<bar> \<le> 1 * u" by (simp add: u_def)
  have "0 \<le> fl b" using b by (intro fl_nonneg) simp
  hence "\<bar>1 - fl b\<bar> \<le> 1" using y1 b u by linarith
  from fl_abs_error[OF this] have "\<bar>fl (1 - fl b) - (1 - fl b)\<bar> \<le> 1 * u" by (simp add: u_def)
  hence e2: "\<bar>fl (1 - fl b) - (1 - b)\<bar> \<le> 2 * u" using y1 by linarith
  have nd: "numer = (1 - a) + (numer - (1 - a))" "denom = (1 - b) + (denom - (1 - b))" by simp_all
  have ne: "\<bar>numer - (1 - a)\<bar> \<le> 3 * u" using e1 by (simp add: numer_def a_def)
  have de: "\<bar>denom - (1 - b)\<bar> \<le> 2 * u" using e2 by (simp add: denom_def b_def)
  show d4: "1/4 \<le> denom" using de b u by linarith
  have "\<bar>((1 - a) + (numer - (1 - a))) / ((1 - b) + (denom - (1 - b))) - (1 - a) / (1 - b)\<bar> \<le> 40 * u"
    using a b ne de u by (intro quotient_error) auto
  hence q: "\<bar>numer / denom - (1 - a) / (1 - b)\<bar> \<le> 40 * u" by simp
  have qs: "(1 - a) / (1 - b) = (n - A) / (n - 1)"
    using assms(1) by (simp add: a_def b_def field_simps)
  have "(1 - a) / (1 - b) \<le> 1 / (1/2)" using a b by (intro frac_le) auto
  hence "(1 - a) / (1 - b) \<le> 2" by simp
  moreover have "0 \<le> (1 - a) / (1 - b)" using a b by simp
  moreover have "40 * u \<le> 1" by (simp add: u_def)
  ultimately have "\<bar>numer / denom\<bar> \<le> 3" using q by linarith
  from fl_abs_error[OF this] have "\<bar>fl (numer / denom) - numer / denom\<bar> \<le> 3 * u"
    by (simp add: u_def)
  hence "\<bar>fl (numer / denom) - (1 - a) / (1 - b)\<bar> \<le> 43 * u" using q by linarith
  also have "43 * u \<le> 1 / 2 ^ 47" by (simp add: u_def)
  finally show "\<bar>fl (numer / denom) - (n - A) / (n - 1)\<bar> \<le> 1 / 2 ^ 47" unfolding qs .
qed

text \<open>
  C4, as stated: when \<open>A < N\<close> the reported serial fraction \<open>f\<close> is the solution of
  \<open>A = 1 / (f + (1 - f) / N)\<close>, clamped to \<open>[0, 1]\<close>. It fails at serial time 3, parallel time 2
  and \<open>N = 2\<close>: \<open>A = 1.5\<close>, the code reports \<open>f = 0.5\<close> (strictly inside the clamp, every
  operation exact in binary64), which does not satisfy the equation; its solution is \<open>1/3\<close>.
  The code computes the linear estimate \<open>(1 - A/N) / (1 - 1/N)\<close> of its own comment.
\<close>

theorem amdahl_solution_counterexample:
  "amdahl 3 2 2 = Inr (Some (1/2, 2, 3/2)) \<and> \<not> solves_amdahl (3/2) 2 (1/2)
     \<and> solves_amdahl (3/2) 2 (1/3)"
  by code_simp

text \<open>
  C4, amended: for \<open>2 \<le> N < 2^53\<close> workers, a serial time \<open>\<ge> 0\<close> and a parallel time \<open>> 0\<close>
  with \<open>A < N\<close>, the analysis returns; the reported serial fraction lies in \<open>[0, 1]\<close> and is
  the linear estimate \<open>(N - A) / (N - 1)\<close> clamped to \<open>[0, 1]\<close>, up to a floating-point error of
  at most \<open>2^-47\<close>; the reported theoretical maximum is \<open>1/f\<close> (rounded) when \<open>f > 0\<close>, else
  \<open>N\<close>, capped at \<open>2 N\<close>. (By \<open>linear_estimate_vs_amdahl\<close> the estimate is \<open>A\<close> times the
  solution of Amdahl's equation.)
\<close>

theorem amdahl_reported:
  assumes "2 \<le> N" "N < 2 ^ 53" "0 \<le> serial_time" "0 < best_time"
    and "fl (serial_time / best_time) < of_int N"
  shows "\<exists>f tm. amdahl serial_time best_time N = Inr (Some (f, tm, fl (serial_time / best_time))) \<and>
           0 \<le> f \<and> f \<le> 1 \<and>
           \<bar>f - max 0 (min 1 ((of_int N - fl (serial_time / best_time)) / (of_int N - 1)))\<bar>
              \<le> 1 / 2 ^ 47 \<and>
           tm = min (if 0 < f then fl (1 / f) else of_int N) (of_int (2 * N)) \<and>
           tm \<le> of_int (2 * N)"
proof -
  define A where "A = fl (serial_time / best_time)"
  define n :: rat where "n = of_int N"
  define numer where "numer = fl (1 - fl (A / n))"
  define denom where "denom = fl (1 - fl (1 / n))"
  define f where "f = max 0 (min 1 (fl (numer / denom)))"
  define tm where "tm = min (if 0 < f then fl (1 / f) else n) (of_int (N * 2))"
  have n2: "2 \<le> n" using assms(1) by (simp add: n_def)
  have fN: "float_of_int N = n" unfolding n_def using assms(1,2) by (intro float_of_int_exact) simp
  have A0: "0 \<le> A" unfolding A_def using assms(3,4) by (intro fl_nonneg) simp
  have An: "A < n" using assms(5) by (simp add: A_def n_def)
  from serial_fraction_error[OF n2 A0 An]
  have d4: "1/4 \<le> denom" and err: "\<bar>fl (numer / denom) - (n - A) / (n - 1)\<bar> \<le> 1 / 2 ^ 47"
    by (simp_all add: numer_def denom_def)
  have d0: "denom \<noteq> 0" using d4 by linarith
  have N0: "N \<noteq> 0" using assms(1) by simp
  have bt: "best_time \<noteq> 0" using assms(4) by simp
  have run: "amdahl serial_time best_time N = Inr (Some (f, tm, A))"
    unfolding amdahl_def Let_def fN
    unfolding A_def[symmetric] n_def[symmetric] numer_def[symmetric] denom_def[symmetric]
        f_def[symmetric]
    using bt An N0 d0 by (simp add: tm_def n_def)
  have rng: "0 \<le> f" "f \<le> 1" by (simp_all add: f_def)
  have "\<bar>f - max 0 (min 1 ((n - A) / (n - 1)))\<bar> \<le> \<bar>fl (numer / denom) - (n - A) / (n - 1)\<bar>"
    unfolding f_def by (rule clamp_lipschitz)
  hence cl: "\<bar>f - max 0 (min 1 ((n - A) / (n - 1)))\<bar> \<le> 1 / 2 ^ 47" using err by linarith
  have tmeq: "tm = min (if 0 < f then fl (1 / f) else of_int N) (of_int (2 * N))"
    by (simp add: tm_def n_def mult.commute)
  have tmle: "tm \<le> of_int (2 * N)" unfolding tmeq by simp
  show ?thesis using run rng cl tmeq tmle unfolding A_def n_def by blast
qed

theorem amdahl_reported_witness:
  "(2::int) \<le> 2 \<and> (2::int) < 2 ^ 53 \<and> (0::rat) \<le> 3 \<and> (0::rat) < 2 \<and> fl (3 / 2) < of_int 2 \<and>
   (\<exists>f tm. amdahl 3 2 2 = Inr (Some (f, tm, fl (3 / 2))) \<and>
           0 \<le> f \<and> f \<le> 1 \<and>
           \<bar>f - max 0 (min 1 ((of_int 2 - fl (3 / 2)) / (of_int 2 - 1)))\<bar> \<le> 1 / 2 ^ 47 \<and>
           tm = min (if 0 < f then fl (1 / f) else of_int 2) (of_int (2 * 2)) \<and>
           tm \<le> of_int (2 * 2))"
proof -
  have a: "(2::int) \<le> 2" by simp
  have b: "(2::int) < 2 ^ 53" by simp
  have c: "(0::rat) \<le> 3" by simp
  have d: "(0::rat) < 2" by simp
  have e: "fl (3 / 2) < of_int 2" by code_simp
  show ?thesis
    by (rule conjI[OF a conjI[OF b conjI[OF c conjI[OF d conjI[OF e
          amdahl_reported[OF a b c d e]]]]]])
qed

section \<open>The worker series of the scaling sweep\<close>

lemma sweep_loop_result:
  "0 < w \<Longrightarrow> \<exists>ys. sweep_loop w M wc = Some (wc @ ys) \<and> set ys = {x. \<exists>i::nat. x = w * 2 ^ i \<and> x \<le> M}"
proof (induction "nat (M + 1 - w)" arbitrary: w wc rule: less_induct)
  case less
  show ?case
  proof (cases "w \<le> M")
    case False
    have "\<And>i::nat. w \<le> w * 2 ^ i" using less.prems by (simp add: mult_le_cancel_left1)
    hence "\<And>i::nat. \<not> w * 2 ^ i \<le> M" using False by (meson order_trans)
    hence "{x. \<exists>i::nat. x = w * 2 ^ i \<and> x \<le> M} = {}" by blast
    thus ?thesis using False by (subst sweep_loop.simps) simp
  next
    case True
    have "nat (M + 1 - w * 2) < nat (M + 1 - w)" using True less.prems by linarith
    from less.hyps[OF this, of "wc @ [w]"] less.prems
    obtain ys where ys: "sweep_loop (w * 2) M (wc @ [w]) = Some ((wc @ [w]) @ ys)"
      "set ys = {x. \<exists>i::nat. x = (w * 2) * 2 ^ i \<and> x \<le> M}" by auto
    have "{x. \<exists>i::nat. x = w * 2 ^ i \<and> x \<le> M} = insert w {x. \<exists>i::nat. x = (w * 2) * 2 ^ i \<and> x \<le> M}"
      (is "?A = insert w ?B")
    proof (intro set_eqI iffI)
      fix x assume "x \<in> ?A"
      then obtain i where i: "x = w * 2 ^ i" "x \<le> M" by auto
      show "x \<in> insert w ?B"
      proof (cases i)
        case 0 thus ?thesis using i by simp
      next
        case (Suc j) thus ?thesis using i by (auto intro: exI[of _ j])
      qed
    next
      fix x assume "x \<in> insert w ?B"
      thus "x \<in> ?A"
      proof
        assume "x = w" thus ?thesis using True by (auto intro: exI[of _ 0])
      next
        assume "x \<in> ?B"
        then obtain i where "x = (w * 2) * 2 ^ i" "x \<le> M" by auto
        thus ?thesis by (auto intro: exI[of _ "Suc i"])
      qed
    qed
    thus ?thesis using ys True by (subst sweep_loop.simps) (auto intro: exI[of _ "w # ys"])
  qed
qed

lemma worker_series_set:
  "\<exists>ws. worker_series M = Some ws \<and> sorted_wrt (<) ws \<and>
        set ws = insert M (insert 1 {x. \<exists>k::nat. x = 2 ^ Suc k \<and> x \<le> M})"
proof -
  from sweep_loop_result[of 2 M "[1]"]
  obtain ys where ys: "sweep_loop 2 M [1] = Some ([1] @ ys)"
    "set ys = {x. \<exists>i::nat. x = 2 * 2 ^ i \<and> x \<le> M}" by auto
  let ?S = "insert M (insert 1 (set ys))"
  have fin: "finite ?S" by simp
  have "set (if M \<in> set ([1] @ ys) then [1] @ ys else ([1] @ ys) @ [M]) = ?S"
    by auto
  hence ws: "worker_series M = Some (sorted_list_of_set ?S)"
    unfolding worker_series_def Let_def ys(1) by (simp only: option.case)
  have "set ys = {x. \<exists>k::nat. x = 2 ^ Suc k \<and> x \<le> M}" using ys(2) by simp
  hence "set (sorted_list_of_set ?S) = insert M (insert 1 {x. \<exists>k::nat. x = 2 ^ Suc k \<and> x \<le> M})"
    using fin by (simp only: set_sorted_list_of_set)
  moreover have "sorted_wrt (<) (sorted_list_of_set ?S)"
    by (rule strict_sorted_list_of_set)
  ultimately show ?thesis using ws by blast
qed

text \<open>
  C5: for every requested maximum \<open>M \<ge> 1\<close> the loop returns, and the series starts at 1, is
  strictly increasing, contains only powers of two below \<open>M\<close> and \<open>M\<close> itself, and contains
  \<open>M\<close> exactly once.
\<close>

theorem sweep_series_shape:
  assumes "1 \<le> M"
  shows "\<exists>ws. worker_series M = Some ws \<and> ws \<noteq> [] \<and> hd ws = 1 \<and> sorted_wrt (<) ws \<and>
           (\<forall>x \<in> set ws. x = M \<or> (\<exists>k::nat. x = 2 ^ k \<and> x < M)) \<and>
           count_list ws M = 1"
proof -
  from worker_series_set[of M] obtain ws where ws: "worker_series M = Some ws"
    "sorted_wrt (<) ws" "set ws = insert M (insert 1 {x. \<exists>k::nat. x = 2 ^ Suc k \<and> x \<le> M})"
    by blast
  have ne: "ws \<noteq> []" using ws(3) by auto
  have "\<And>k::nat. (1::int) \<le> 2 ^ Suc k" by (rule one_le_power) simp
  hence ge1: "\<forall>x \<in> set ws. 1 \<le> x" using ws(3) assms by (auto simp del: power_Suc)
  have "1 \<in> set ws" using ws(3) by simp
  have hd1: "hd ws = 1"
  proof -
    obtain a as where as: "ws = a # as" using ne by (cases ws) auto
    have "\<forall>x \<in> set as. a < x" using ws(2) as by simp
    moreover have "1 \<le> a" using ge1 as by simp
    ultimately have "1 \<notin> set as" by auto
    thus ?thesis using \<open>1 \<in> set ws\<close> as by simp
  qed
  have dist: "distinct ws" using ws(2) by (simp add: strict_sorted_iff)
  have "M \<in> set ws" using ws(3) by simp
  then obtain ps ss where split: "ws = ps @ M # ss" by (auto simp: in_set_conv_decomp)
  hence "M \<notin> set ps" "M \<notin> set ss" using dist by auto
  hence cnt: "count_list ws M = 1" using split by simp
  have mem: "\<forall>x \<in> set ws. x = M \<or> (\<exists>k::nat. x = 2 ^ k \<and> x < M)"
  proof
    fix x assume "x \<in> set ws"
    then consider "x = M" | "x = 1" | k where "x = 2 ^ Suc k" "x \<le> M" using ws(3) by auto
    thus "x = M \<or> (\<exists>k::nat. x = 2 ^ k \<and> x < M)"
    proof cases
      case 2
      thus ?thesis using assms by (cases "M = 1") (auto intro: exI[of _ 0])
    next
      case 3
      thus ?thesis by (cases "x = M") (auto simp del: power_Suc)
    qed simp
  qed
  show ?thesis using ws(1,2) ne hd1 cnt mem by blast
qed

theorem sweep_series_shape_witness:
  "(1::int) \<le> 6 \<and>
   (\<exists>ws. worker_series 6 = Some ws \<and> ws \<noteq> [] \<and> hd ws = 1 \<and> sorted_wrt (<) ws \<and>
      (\<forall>x \<in> set ws. x = 6 \<or> (\<exists>k::nat. x = 2 ^ k \<and> x < 6)) \<and>
      count_list ws 6 = 1)"
  using sweep_series_shape[of 6] by simp

section \<open>The job lifecycle\<close>

lemma write_job_Some:
  "jobs s jid = Some j \<Longrightarrow>
     write_job jid f s = s\<lparr>jobs := (jobs s)(jid \<mapsto> f j), trail := trail s @ [f j]\<rparr>"
  by (simp add: write_job_def)

lemma write_job_jobs: "jobs (write_job jid f s) jid = map_option f (jobs s jid)"
  by (simp add: write_job_def split: option.splits)

lemma write_job_temp_dirs: "temp_dirs (write_job jid f s) = temp_dirs s"
  by (simp add: write_job_def split: option.splits)

lemma write_tracks:
  assumes "tracks jid j s"
  shows "tracks jid (f j) (write_job jid f s)"
    and "temp_dirs (write_job jid f s) = temp_dirs s"
    and "phase_history (write_job jid f s) = (if phase (f j) = phase j then phase_history s else phase_history s @ [phase (f j)])"
proof -
  have j: "jobs s jid = Some j" and ne: "trail s \<noteq> []" and l: "last (trail s) = j"
    using assms by (simp_all add: tracks_def)
  have w: "write_job jid f s = s\<lparr>jobs := (jobs s)(jid \<mapsto> f j), trail := trail s @ [f j]\<rparr>"
    using j by (rule write_job_Some)
  show "tracks jid (f j) (write_job jid f s)" unfolding w by (simp add: tracks_def)
  show "temp_dirs (write_job jid f s) = temp_dirs s" unfolding w by simp
  have t: "trail s = butlast (trail s) @ [j]" using ne l by (metis append_butlast_last_id)
  have "map phase (trail s @ [f j]) = map phase (butlast (trail s)) @ [phase j, phase (f j)]"
    by (subst t) simp
  hence "remdups_adj (map phase (trail s @ [f j]))
         = remdups_adj (map phase (butlast (trail s)) @ [phase j])
           @ (if phase j = phase (f j) then [] else [phase (f j)])"
    by (simp only: remdups_adj_append_two)
  also have "map phase (butlast (trail s)) @ [phase j] = map phase (trail s)"
    by (subst (2) t) simp
  finally show "phase_history (write_job jid f s) = (if phase (f j) = phase j then phase_history s else phase_history s @ [phase (f j)])"
    unfolding w phase_history_def by auto
qed

lemma fold_tracks:
  assumes "tracks jid j s"
  shows "tracks jid (j\<lparr>progress := last (progress j # ps)\<rparr>)
           (fold (\<lambda>p. write_job jid (\<lambda>j. j\<lparr>progress := p\<rparr>)) ps s)
       \<and> temp_dirs (fold (\<lambda>p. write_job jid (\<lambda>j. j\<lparr>progress := p\<rparr>)) ps s) = temp_dirs s
       \<and> phase_history (fold (\<lambda>p. write_job jid (\<lambda>j. j\<lparr>progress := p\<rparr>)) ps s) = phase_history s"
  using assms
proof (induction ps arbitrary: s j)
  case Nil
  thus ?case by simp
next
  case (Cons p ps)
  let ?s' = "write_job jid (\<lambda>j. j\<lparr>progress := p\<rparr>) s"
  note w = write_tracks[OF Cons.prems, of "\<lambda>j. j\<lparr>progress := p\<rparr>"]
  have l: "last (progress j # p # ps) = last (p # ps)" by simp
  from Cons.IH[OF w(1)] show ?case
    unfolding fold_simps l using w(2,3) by (simp del: last.simps)
qed


lemma smart_step_tracks:
  assumes "tracks jid j s"
  shows "\<exists>r s' j'. smart_step ev jid inp md w0 f0 smart engine s = (r, s') \<and> tracks jid j' s' \<and>
           temp_dirs s' = temp_dirs s \<and> phase_history s' = phase_history s \<and>
           phase j' = phase j \<and> progress j' = progress j \<and> status j' = status j"
proof (cases "smart \<and> (\<exists>conf. (if engine = ''v2'' \<and> v2_available ev
                  then get_content_aware_config ev md w0 inp
                  else get_smart_config ev md w0) = Inr conf)")
  case False
  hence "\<exists>r. smart_step ev jid inp md w0 f0 smart engine s = (r, s)"
    by (auto simp: smart_step_def split: sum.splits)
  thus ?thesis using assms by blast
next
  case True
  then obtain conf where c: "(if engine = ''v2'' \<and> v2_available ev
                  then get_content_aware_config ev md w0 inp
                  else get_smart_config ev md w0) = Inr conf" and sm: smart by blast
  define s1 where "s1 = write_job jid (\<lambda>j. j\<lparr>workers := sc_workers conf\<rparr>) s"
  define s2 where "s2 = write_job jid (\<lambda>j. j\<lparr>filter_chain := sc_filter conf\<rparr>) s1"
  define s3 where "s3 = write_job jid (\<lambda>j. j\<lparr>smart_config := Some conf\<rparr>) s2"
  note a = write_tracks[OF assms, of "\<lambda>j. j\<lparr>workers := sc_workers conf\<rparr>", folded s1_def]
  note b = write_tracks[OF a(1), of "\<lambda>j. j\<lparr>filter_chain := sc_filter conf\<rparr>", folded s2_def]
  note d = write_tracks[OF b(1), of "\<lambda>j. j\<lparr>smart_config := Some conf\<rparr>", folded s3_def]
  have "smart_step ev jid inp md w0 f0 smart engine s = (Inr (sc_workers conf, sc_filter conf), s3)"
    unfolding smart_step_def s3_def s2_def s1_def Let_def using sm c by simp
  moreover have "temp_dirs s3 = temp_dirs s" "phase_history s3 = phase_history s"
    using a(2,3) b(2,3) d(2,3) by simp_all
  ultimately show ?thesis using d(1) by fastforce
qed

lemma benchmark_step_tracks:
  assumes "tracks jid j s" "phase j \<noteq> ''benchmarking''"
  shows "\<exists>r s' j'. benchmark_step ev jid inp jt md f1 s = (r, s') \<and> tracks jid j' s' \<and>
           temp_dirs s' = temp_dirs s \<and> phase_history s' = phase_history s @ [''benchmarking''] \<and>
           phase j' = ''benchmarking'' \<and> progress j' = progress j \<and> status j' = status j"
proof -
  define s1 where "s1 = write_job jid (\<lambda>j. j\<lparr>phase := ''benchmarking''\<rparr>) s"
  note a = write_tracks[OF assms(1), of "\<lambda>j. j\<lparr>phase := ''benchmarking''\<rparr>", folded s1_def]
  have h1: "phase_history s1 = phase_history s @ [''benchmarking'']" using a(3) assms(2) by simp
  show ?thesis
  proof (cases "\<exists>t. benchmark_serial ev inp jt f1 = Inr t \<and> min 2 (vm_duration md) \<noteq> 0")
    case False
    hence "\<exists>r. benchmark_step ev jid inp jt md f1 s = (r, s1)"
      by (auto simp: benchmark_step_def s1_def Let_def split: sum.splits)
    thus ?thesis using a(1,2) h1 by fastforce
  next
    case True
    then obtain t where t: "benchmark_serial ev inp jt f1 = Inr t" "min 2 (vm_duration md) \<noteq> 0"
      by blast
    define v where "v = fl (fl (vm_duration md / min 2 (vm_duration md)) * t)"
    define s2 where "s2 = write_job jid (\<lambda>j. j\<lparr>projected_serial_time := Some v\<rparr>) s1"
    note b = write_tracks[OF a(1), of "\<lambda>j. j\<lparr>projected_serial_time := Some v\<rparr>", folded s2_def]
    have "benchmark_step ev jid inp jt md f1 s = (None, s2)"
      unfolding benchmark_step_def s2_def s1_def v_def Let_def using t by simp
    moreover have "temp_dirs s2 = temp_dirs s" "phase_history s2 = phase_history s @ [''benchmarking'']"
      using a(2) b(2,3) h1 by simp_all
    ultimately show ?thesis using b(1) by fastforce
  qed
qed

lemma parallel_step_tracks:
  assumes "tracks jid j s" "phase j \<noteq> ''parallel''"
  shows "\<exists>r s' j'. parallel_step ev jid inp outp md w1 f1 jt s = (r, s') \<and> tracks jid j' s' \<and>
           temp_dirs s' = temp_dirs s \<and> phase_history s' = phase_history s @ [''parallel''] \<and>
           phase j' = ''parallel'' \<and> status j' = status j \<and>
           progress j' = last (progress j # fst (run_parallel_cb ev inp outp md w1 f1 jt)) \<and>
           r = snd (run_parallel_cb ev inp outp md w1 f1 jt)"
proof -
  define s1 where "s1 = write_job jid (\<lambda>j. j\<lparr>phase := ''parallel''\<rparr>) s"
  note a = write_tracks[OF assms(1), of "\<lambda>j. j\<lparr>phase := ''parallel''\<rparr>", folded s1_def]
  have h1: "phase_history s1 = phase_history s @ [''parallel'']" using a(3) assms(2) by simp
  obtain ps outcome where r: "run_parallel_cb ev inp outp md w1 f1 jt = (ps, outcome)"
    by (cases "run_parallel_cb ev inp outp md w1 f1 jt")
  define s2 where "s2 = fold (\<lambda>p. write_job jid (\<lambda>j. j\<lparr>progress := p\<rparr>)) ps s1"
  note b = fold_tracks[OF a(1), of ps, folded s2_def]
  have "parallel_step ev jid inp outp md w1 f1 jt s = (outcome, s2)"
    unfolding parallel_step_def s2_def s1_def Let_def r by simp
  moreover have "temp_dirs s2 = temp_dirs s" "phase_history s2 = phase_history s @ [''parallel'']"
    using a(2) b h1 by simp_all
  moreover have "tracks jid (j\<lparr>phase := ''parallel'', progress := last (progress j # ps)\<rparr>) s2"
    using b by simp
  ultimately show ?thesis unfolding r by fastforce
qed

lemma completion_step_tracks:
  assumes "tracks jid j s" "phase j \<noteq> ''completed''"
  shows "\<exists>r s' j'. completion_step ev jid inp outp fn md el s = (r, s') \<and> tracks jid j' s' \<and>
           temp_dirs s' = temp_dirs s \<and> phase_history s' = phase_history s @ [''completed''] \<and>
           phase j' = ''completed'' \<and> status j' = ''completed'' \<and> progress j' = 100 \<and>
           r = (case generate_comparison_report ev inp outp (min 8 (vm_duration md)) of
                  Inl e \<Rightarrow> Some e | Inr _ \<Rightarrow> None)"
proof -
  define s1 where "s1 = write_job jid (\<lambda>j. j\<lparr>status := ''completed''\<rparr>) s"
  define s2 where "s2 = write_job jid (\<lambda>j. j\<lparr>phase := ''completed''\<rparr>) s1"
  define s3 where "s3 = write_job jid (\<lambda>j. j\<lparr>progress := 100\<rparr>) s2"
  define s4 where "s4 = write_job jid (\<lambda>j. j\<lparr>job_output := Some (''/outputs/'' @ fn)\<rparr>) s3"
  define s5 where "s5 = write_job jid (\<lambda>j. j\<lparr>job_duration := Some el\<rparr>) s4"
  note a = write_tracks[OF assms(1), of "\<lambda>j. j\<lparr>status := ''completed''\<rparr>", folded s1_def]
  note b = write_tracks[OF a(1), of "\<lambda>j. j\<lparr>phase := ''completed''\<rparr>", folded s2_def]
  note c = write_tracks[OF b(1), of "\<lambda>j. j\<lparr>progress := 100\<rparr>", folded s3_def]
  note d = write_tracks[OF c(1), of "\<lambda>j. j\<lparr>job_output := Some (''/outputs/'' @ fn)\<rparr>", folded s4_def]
  note e = write_tracks[OF d(1), of "\<lambda>j. j\<lparr>job_duration := Some el\<rparr>", folded s5_def]
  have t5: "temp_dirs s5 = temp_dirs s" using a(2) b(2) c(2) d(2) e(2) by simp
  have h5: "phase_history s5 = phase_history s @ [''completed'']"
    using a(3) b(3) c(3) d(3) e(3) assms(2) by simp
  show ?thesis
  proof (cases "generate_comparison_report ev inp outp (min 8 (vm_duration md))")
    case (Inl x)
    hence "completion_step ev jid inp outp fn md el s = (Some x, s5)"
      unfolding completion_step_def s5_def s4_def s3_def s2_def s1_def Let_def by simp
    thus ?thesis using e(1) t5 h5 Inl by fastforce
  next
    case (Inr rep)
    define s6 where "s6 = write_job jid (\<lambda>j. j\<lparr>comparison_report := Some rep\<rparr>) s5"
    note f = write_tracks[OF e(1), of "\<lambda>j. j\<lparr>comparison_report := Some rep\<rparr>", folded s6_def]
    define s7 where "s7 = s6\<lparr>successful_jobs := successful_jobs s6 + 1,
                    total_processing_time := fl (total_processing_time s6 + el),
                    total_frames_processed :=
                      total_frames_processed s6 + py_int (fl (vm_duration md * vm_fps md))\<rparr>"
    have "completion_step ev jid inp outp fn md el s = (None, s7)"
      unfolding completion_step_def s7_def s6_def s5_def s4_def s3_def s2_def s1_def Let_def
      using Inr by simp
    moreover have "tracks jid (j\<lparr>status := ''completed'', phase := ''completed'', progress := 100,
                                job_output := Some (''/outputs/'' @ fn), job_duration := Some el,
                                comparison_report := Some rep\<rparr>) s7"
      using f(1) by (simp add: tracks_def s7_def)
    moreover have "temp_dirs s7 = temp_dirs s" using f(2) t5 by (simp add: s7_def)
    moreover have "phase_history s7 = phase_history s @ [''completed'']"
      using f(3) h5 by (simp add: s7_def phase_history_def)
    ultimately show ?thesis using Inr by fastforce
  qed
qed

lemma try_body_outcomes:
  assumes "tracks jid j s" "phase j = ''analyzing''"
  shows "\<exists>exc s' j'. try_body ev jid inp w0 f0 smart engine s = (exc, s') \<and> tracks jid j' s' \<and>
           temp_dirs s' = temp_dirs s \<and>
           (exc \<noteq> None \<and> phase_history s' = phase_history s \<and> phase j' = ''analyzing''
            \<or> exc \<noteq> None \<and> phase_history s' = phase_history s @ [''benchmarking'']
                 \<and> phase j' = ''benchmarking''
            \<or> exc \<noteq> None \<and> phase_history s' = phase_history s @ [''benchmarking'', ''parallel'']
                 \<and> phase j' = ''parallel''
            \<or> phase_history s' = phase_history s @ [''benchmarking'', ''parallel'', ''completed'']
                 \<and> phase j' = ''completed'' \<and> status j' = ''completed'' \<and> progress j' = 100)"
proof (cases "analyze_video ev inp")
  case (Inl e)
  hence "try_body ev jid inp w0 f0 smart engine s = (Some e, s)"
    by (simp add: try_body_def Let_def)
  thus ?thesis using assms by fastforce
next
  case (Inr md)
  define jt where "jt = path_join temp_base jid"
  define fn where "fn = ''output_'' @ jid @ ''.mp4''"
  define outp where "outp = path_join output_dir fn"
  have tb: "try_body ev jid inp w0 f0 smart engine s =
     (case smart_step ev jid inp md w0 f0 smart engine s of
                (Inl e, s1) \<Rightarrow> (Some e, s1)
              | (Inr (workers1, filter_chain1), s1) \<Rightarrow>
                  (case benchmark_step ev jid inp jt md filter_chain1 s1 of
                     (Some e, s2) \<Rightarrow> (Some e, s2)
                   | (None, s2) \<Rightarrow>
                       (case parallel_step ev jid inp outp md workers1 filter_chain1 jt s2 of
                          (Inl e, s3) \<Rightarrow> (Some e, s3)
                        | (Inr elapsed_time, s3) \<Rightarrow>
                            completion_step ev jid inp outp fn md elapsed_time s3)))"
    unfolding try_body_def Let_def jt_def fn_def outp_def Inr by simp
  from smart_step_tracks[OF assms(1), of ev inp md w0 f0 smart engine]
  obtain r1 s1 j1 where 1: "smart_step ev jid inp md w0 f0 smart engine s = (r1, s1)"
    "tracks jid j1 s1" "temp_dirs s1 = temp_dirs s" "phase_history s1 = phase_history s"
    "phase j1 = phase j" by blast
  show ?thesis
  proof (cases r1)
    case (Inl e)
    hence "try_body ev jid inp w0 f0 smart engine s = (Some e, s1)" unfolding tb 1(1) by simp
    thus ?thesis using 1 assms(2) by fastforce
  next
    case (Inr wf)
    obtain w1 f1 where wf: "wf = (w1, f1)" by (cases wf)
    have p1: "phase j1 \<noteq> ''benchmarking''" using 1(5) assms(2) by simp
    from benchmark_step_tracks[OF 1(2) p1, of ev inp jt md f1]
    obtain r2 s2 j2 where 2: "benchmark_step ev jid inp jt md f1 s1 = (r2, s2)"
      "tracks jid j2 s2" "temp_dirs s2 = temp_dirs s1"
      "phase_history s2 = phase_history s1 @ [''benchmarking'']" "phase j2 = ''benchmarking''"
      by blast
    show ?thesis
    proof (cases r2)
      case (Some e)
      hence "try_body ev jid inp w0 f0 smart engine s = (Some e, s2)"
        unfolding tb 1(1) Inr wf by (simp add: 2(1))
      thus ?thesis using 1 2 by fastforce
    next
      case None
      have p2: "phase j2 \<noteq> ''parallel''" using 2(5) by simp
      from parallel_step_tracks[OF 2(2) p2, of ev inp outp md w1 f1 jt]
      obtain r3 s3 j3 where 3: "parallel_step ev jid inp outp md w1 f1 jt s2 = (r3, s3)"
        "tracks jid j3 s3" "temp_dirs s3 = temp_dirs s2"
        "phase_history s3 = phase_history s2 @ [''parallel'']" "phase j3 = ''parallel''"
        by blast
      show ?thesis
      proof (cases r3)
        case (Inl e)
        hence "try_body ev jid inp w0 f0 smart engine s = (Some e, s3)"
          unfolding tb 1(1) Inr wf by (simp add: 2(1) None 3(1))
        thus ?thesis using 1 2 3 by fastforce
      next
        case (Inr el)
        have p3: "phase j3 \<noteq> ''completed''" using 3(5) by simp
        from completion_step_tracks[OF 3(2) p3, of ev inp outp fn md el]
        obtain r4 s4 j4 where 4: "completion_step ev jid inp outp fn md el s3 = (r4, s4)"
          "tracks jid j4 s4" "temp_dirs s4 = temp_dirs s3"
          "phase_history s4 = phase_history s3 @ [''completed'']" "phase j4 = ''completed''"
          "status j4 = ''completed''" "progress j4 = 100" by blast
        have "try_body ev jid inp w0 f0 smart engine s = (r4, s4)"
          unfolding tb 1(1) \<open>r1 = Inr wf\<close> wf by (simp add: 2(1) None 3(1) Inr 4(1))
        thus ?thesis using 1 2 3 4 by fastforce
      qed
    qed
  qed
qed

lemma task_entry_tracks:
  assumes "tracks jid j0 s"
  shows "tracks jid (j0\<lparr>status := ''processing'', phase := ''analyzing''\<rparr>) (snd (task_entry ev jid s))"
    and "fst (task_entry ev jid s) = None \<longleftrightarrow>
           path_join temp_base jid \<in> temp_dirs s \<or> make_dir ev (path_join temp_base jid) = None"
    and "phase_history (snd (task_entry ev jid s))
           = (if phase j0 = ''analyzing'' then phase_history s else phase_history s @ [''analyzing''])"
    and "fst (task_entry ev jid s) \<noteq> None \<Longrightarrow> path_join temp_base jid \<notin> temp_dirs (snd (task_entry ev jid s))"
proof -
  define s1 where "s1 = write_job jid (\<lambda>j. j\<lparr>status := ''processing''\<rparr>) s"
  define s2 where "s2 = write_job jid (\<lambda>j. j\<lparr>phase := ''analyzing''\<rparr>) s1"
  define jt where "jt = path_join temp_base jid"
  note a = write_tracks[OF assms, of "\<lambda>j. j\<lparr>status := ''processing''\<rparr>", folded s1_def]
  note b = write_tracks[OF a(1), of "\<lambda>j. j\<lparr>phase := ''analyzing''\<rparr>", folded s2_def]
  have td: "temp_dirs s2 = temp_dirs s" using a(2) b(2) by simp
  have te: "task_entry ev jid s =
              (if jt \<in> temp_dirs s then (None, s2)
               else (case make_dir ev jt of
                       Some e \<Rightarrow> (Some e, s2)
                     | None \<Rightarrow> (None, s2\<lparr>temp_dirs := insert jt (temp_dirs s2)\<rparr>)))"
    unfolding s2_def s1_def jt_def by (simp add: task_entry_def Let_def write_job_temp_dirs)
  show "tracks jid (j0\<lparr>status := ''processing'', phase := ''analyzing''\<rparr>) (snd (task_entry ev jid s))"
    unfolding te using b(1) by (simp add: tracks_def split: option.splits)
  show "fst (task_entry ev jid s) = None \<longleftrightarrow>
           path_join temp_base jid \<in> temp_dirs s \<or> make_dir ev (path_join temp_base jid) = None"
    unfolding te jt_def[symmetric] by (simp split: option.splits)
  show "phase_history (snd (task_entry ev jid s))
           = (if phase j0 = ''analyzing'' then phase_history s else phase_history s @ [''analyzing''])"
    unfolding te using a(3) b(3) by (simp add: phase_history_def split: option.splits)
  show "fst (task_entry ev jid s) \<noteq> None \<Longrightarrow> path_join temp_base jid \<notin> temp_dirs (snd (task_entry ev jid s))"
    unfolding te jt_def[symmetric] using td by (simp split: option.splits if_splits)
qed

lemma except_handler_tracks:
  assumes "tracks jid j s"
  shows "tracks jid (j\<lparr>status := ''failed'', phase := ''completed'',
                        job_error := Some (error_message e)\<rparr>) (except_handler jid e s)"
    and "temp_dirs (except_handler jid e s) = temp_dirs s"
    and "phase_history (except_handler jid e s)
           = (if phase j = ''completed'' then phase_history s else phase_history s @ [''completed''])"
proof -
  define s1 where "s1 = write_job jid (\<lambda>j. j\<lparr>status := ''failed''\<rparr>) s"
  define s2 where "s2 = write_job jid (\<lambda>j. j\<lparr>phase := ''completed''\<rparr>) s1"
  define s3 where "s3 = write_job jid (\<lambda>j. j\<lparr>job_error := Some (error_message e)\<rparr>) s2"
  note a = write_tracks[OF assms, of "\<lambda>j. j\<lparr>status := ''failed''\<rparr>", folded s1_def]
  note b = write_tracks[OF a(1), of "\<lambda>j. j\<lparr>phase := ''completed''\<rparr>", folded s2_def]
  note c = write_tracks[OF b(1), of "\<lambda>j. j\<lparr>job_error := Some (error_message e)\<rparr>", folded s3_def]
  have eh: "except_handler jid e s = s3\<lparr>failed_jobs := failed_jobs s3 + 1\<rparr>"
    by (simp add: except_handler_def s3_def s2_def s1_def Let_def)
  show "tracks jid (j\<lparr>status := ''failed'', phase := ''completed'',
                        job_error := Some (error_message e)\<rparr>) (except_handler jid e s)"
    unfolding eh using c(1) by (simp add: tracks_def)
  show "temp_dirs (except_handler jid e s) = temp_dirs s"
    unfolding eh using a(2) b(2) c(2) by simp
  show "phase_history (except_handler jid e s)
           = (if phase j = ''completed'' then phase_history s else phase_history s @ [''completed''])"
    unfolding eh using a(3) b(3) c(3) by (simp add: phase_history_def)
qed

lemma run_render_task_unfold:
  assumes "tracks jid j0 s" "fst (task_entry ev jid s) = None"
  shows "run_render_task ev jid inp w0 f0 smart engine s =
           (None,
            (case try_body ev jid inp w0 f0 smart engine (snd (task_entry ev jid s)) of
               (None, s2) \<Rightarrow> s2
             | (Some e, s2) \<Rightarrow> except_handler jid e s2)
            \<lparr>temp_dirs :=
               temp_dirs (case try_body ev jid inp w0 f0 smart engine (snd (task_entry ev jid s)) of
                            (None, s2) \<Rightarrow> s2
                          | (Some e, s2) \<Rightarrow> except_handler jid e s2)
               - {path_join temp_base jid}\<rparr>)"
proof -
  obtain s1 where te: "task_entry ev jid s = (None, s1)"
    using assms(2) by (cases "task_entry ev jid s") simp
  show ?thesis
    using assms(1)
    by (simp add: run_render_task_def te tracks_def Let_def split: prod.splits option.splits)
qed

text \<open>When \<^verbatim>\<open>mkdir\<close> raises, the exception leaves \<^verbatim>\<open>run_render_task\<close> as it is.\<close>

lemma run_render_task_mkdir_raises:
  assumes "tracks jid j0 s" "fst (task_entry ev jid s) = Some e"
  shows "run_render_task ev jid inp w0 f0 smart engine s = (Some e, snd (task_entry ev jid s))"
proof -
  obtain s1 where te: "task_entry ev jid s = (Some e, s1)"
    using assms(2) by (cases "task_entry ev jid s") simp
  show ?thesis
    using assms(1) by (simp add: run_render_task_def te tracks_def)
qed

lemma write_job_trail:
  "trail (write_job jid f s) = trail s @ (case jobs s jid of None \<Rightarrow> [] | Some j \<Rightarrow> [f j])"
  by (simp add: write_job_def split: option.splits)

lemma write_job_failed_jobs: "failed_jobs (write_job jid f s) = failed_jobs s"
  by (simp add: write_job_def split: option.splits)

lemma server_1_job:
  "fst (create_job srv_env_ok request_0 server_0) = Inr job_1"
  "jobs server_1 ''0a1b2c3d'' = Some job_1"
  "trail server_1 = [job_1]"
  "phase job_1 = ''queued''"
  "tracks ''0a1b2c3d'' job_1 server_1"
  "temp_dirs server_1 = {}"
  "failed_jobs server_1 = 0"
  by (simp_all add: server_1_def create_job_def srv_env_ok_def request_0_def server_0_def
        job_1_def str_or_def int_or_def Let_def tracks_def)

lemmas run_defs = run_render_task_def task_entry_def try_body_def smart_step_def
  benchmark_step_def parallel_step_def completion_step_def except_handler_def Let_def

lemmas proj_simps = write_job_jobs write_job_trail write_job_temp_dirs write_job_failed_jobs
  server_1_job(2,3,6,7)

lemma video_3s_duration: "vm_duration video_3s = 3"
  by (simp add: video_3s_def)

lemmas env_defs = srv_env_ok_def srv_env_parallel_fails_def srv_env_report_fails_def
  srv_env_mkdir_fails_def video_3s_duration job_1_def

lemma parallel_fails_run:
  "fst (task_entry srv_env_parallel_fails ''0a1b2c3d'' server_1) = None"
  "fst (try_body srv_env_parallel_fails ''0a1b2c3d'' ''/srv/uploads/in.mp4'' 8
          ''unsharp=5:5:1.5:5:5:0.5'' False ''v1''
          (snd (task_entry srv_env_parallel_fails ''0a1b2c3d'' server_1)))
     = Some (RuntimeError ''1 chunks failed'')"
  "map_option progress
     (jobs (snd (try_body srv_env_parallel_fails ''0a1b2c3d'' ''/srv/uploads/in.mp4'' 8
                   ''unsharp=5:5:1.5:5:5:0.5'' False ''v1''
                   (snd (task_entry srv_env_parallel_fails ''0a1b2c3d'' server_1))))
        ''0a1b2c3d'') = Some 66"
  by (simp_all add: run_defs proj_simps env_defs)

text \<open>
  Exceptions raised in the \<^verbatim>\<open>try\<close> block. Once the working directory is there (it existed,
  or \<^verbatim>\<open>mkdir\<close> created it), any exception raised in the \<^verbatim>\<open>try\<close> block, at whichever step,
  leaves the job with status \<^verbatim>\<open>failed\<close>, phase \<^verbatim>\<open>completed\<close> (the terminal marker), the text
  \<^verbatim>\<open>str(e)\<close> of the exception in its error field and the progress it had when the exception
  was raised. And on every exit path, also when \<^verbatim>\<open>mkdir\<close> raised, the working directory of the
  job does not exist afterwards.
\<close>

lemma try_block_exception_handled:
  assumes "tracks jid j0 s" "fst (task_entry ev jid s) = None"
    "try_body ev jid inp w0 f0 smart engine (snd (task_entry ev jid s)) = (Some e, s2)"
  shows "\<exists>jf j2. jobs (snd (run_render_task ev jid inp w0 f0 smart engine s)) jid = Some jf \<and>
                 jobs s2 jid = Some j2 \<and>
                 status jf = ''failed'' \<and> phase jf = ''completed'' \<and>
                 job_error jf = Some (error_message e) \<and>
                 progress jf = progress j2"
proof -
  note te = task_entry_tracks[OF assms(1), of ev]
  have pa: "phase (j0\<lparr>status := ''processing'', phase := ''analyzing''\<rparr>) = ''analyzing''" by simp
  from try_body_outcomes[OF te(1) pa, of ev inp w0 f0 smart engine] assms(3)
  obtain j2 where j2: "tracks jid j2 s2" by auto
  note eh = except_handler_tracks[OF j2, of e]
  let ?jf = "j2\<lparr>status := ''failed'', phase := ''completed'', job_error := Some (error_message e)\<rparr>"
  have "jobs (snd (run_render_task ev jid inp w0 f0 smart engine s)) jid = Some ?jf"
    unfolding run_render_task_unfold[OF assms(1,2)] assms(3) using eh(1) by (simp add: tracks_def)
  moreover have "jobs s2 jid = Some j2" using j2 by (simp add: tracks_def)
  ultimately show ?thesis by simp
qed

lemma working_directory_removed:
  assumes "tracks jid j0 s"
  shows "path_join temp_base jid \<notin> temp_dirs (snd (run_render_task ev jid inp w0 f0 smart engine s))"
proof (cases "fst (task_entry ev jid s)")
  case None
  show ?thesis unfolding run_render_task_unfold[OF assms None] by simp
next
  case (Some e)
  hence "fst (task_entry ev jid s) \<noteq> None" by simp
  from task_entry_tracks(4)[OF assms this] show ?thesis
    unfolding run_render_task_mkdir_raises[OF assms Some] by simp
qed

text \<open>
  What is left of a job when \<^verbatim>\<open>mkdir\<close> raises: the record as the two assignments before it
  made it, with no error recorded and the count of failed jobs unchanged.
\<close>

lemma mkdir_failure_leaves_job:
  assumes "tracks jid j0 s" "fst (task_entry ev jid s) = Some e"
  shows "fst (run_render_task ev jid inp w0 f0 smart engine s) = Some e"
    and "jobs (snd (run_render_task ev jid inp w0 f0 smart engine s)) jid
           = Some (j0\<lparr>status := ''processing'', phase := ''analyzing''\<rparr>)"
    and "phase_history (snd (run_render_task ev jid inp w0 f0 smart engine s))
           = (if phase j0 = ''analyzing'' then phase_history s else phase_history s @ [''analyzing''])"
  unfolding run_render_task_mkdir_raises[OF assms]
  using task_entry_tracks(1,3)[OF assms(1), of ev] by (simp_all add: tracks_def)

text \<open>
  C7: any exception at any phase of the execution of a job sets its status to \<^verbatim>\<open>failed\<close>,
  its phase to the terminal marker and records the message. The code breaks it for the
  creation of the working directory: \<^verbatim>\<open>job_temp.mkdir(exist_ok=True)\<close> is called after the job
  has been marked \<^verbatim>\<open>processing\<close> and \<^verbatim>\<open>analyzing\<close> and before the \<^verbatim>\<open>try\<close>. When it raises
  (here \<^verbatim>\<open>.server_temp\<close> is gone), the exception leaves \<^verbatim>\<open>run_render_task\<close>: the job stays
  \<^verbatim>\<open>processing\<close> and \<^verbatim>\<open>analyzing\<close>, no error is recorded and the count of failed jobs is
  unchanged.
\<close>

theorem mkdir_failure_leaves_job_processing:
  "fst (run_render_task srv_env_mkdir_fails ''0a1b2c3d'' ''/srv/uploads/in.mp4'' 8
          ''unsharp=5:5:1.5:5:5:0.5'' False ''v1'' server_1)
     = Some (OtherError (''[Errno 2] No such file or directory: '' @ [CHR 0x27]
                           @ ''.server_temp/0a1b2c3d'' @ [CHR 0x27]))
   \<and> map_option (\<lambda>j. (status j, phase j, job_error j))
       (jobs (snd (run_render_task srv_env_mkdir_fails ''0a1b2c3d'' ''/srv/uploads/in.mp4'' 8
                     ''unsharp=5:5:1.5:5:5:0.5'' False ''v1'' server_1)) ''0a1b2c3d'')
     = Some (''processing'', ''analyzing'', None)
   \<and> failed_jobs (snd (run_render_task srv_env_mkdir_fails ''0a1b2c3d'' ''/srv/uploads/in.mp4'' 8
                          ''unsharp=5:5:1.5:5:5:0.5'' False ''v1'' server_1)) = 0
   \<and> phase_history (snd (run_render_task srv_env_mkdir_fails ''0a1b2c3d'' ''/srv/uploads/in.mp4'' 8
                            ''unsharp=5:5:1.5:5:5:0.5'' False ''v1'' server_1))
     = [''queued'', ''analyzing'']"
  by (simp add: phase_history_def run_defs proj_simps env_defs path_join_def temp_base_def)

text \<open>
  C8: progress equals 100 if and only if the status is \<^verbatim>\<open>completed\<close>. The code breaks it
  when the pipeline succeeds and the comparison report then raises: the job has been marked
  \<^verbatim>\<open>completed\<close> with progress 100 inside the \<^verbatim>\<open>try\<close> block, the handler sets the status to
  \<^verbatim>\<open>failed\<close> and leaves the progress. The job ends \<^verbatim>\<open>failed\<close> with progress 100 and its
  output recorded; its status has been \<^verbatim>\<open>completed\<close> before.
\<close>

theorem report_failure_leaves_progress_100:
  "map_option (\<lambda>j. (status j, phase j, progress j, job_output j))
     (jobs (snd (run_render_task srv_env_report_fails ''0a1b2c3d'' ''/srv/uploads/in.mp4'' 8
                   ''unsharp=5:5:1.5:5:5:0.5'' False ''v1'' server_1)) ''0a1b2c3d'')
     = Some (''failed'', ''completed'', 100, Some ''/outputs/output_0a1b2c3d.mp4'')
   \<and> remdups_adj (map (\<lambda>j. (status j, progress j))
        (trail (snd (run_render_task srv_env_report_fails ''0a1b2c3d'' ''/srv/uploads/in.mp4'' 8
                       ''unsharp=5:5:1.5:5:5:0.5'' False ''v1'' server_1))))
     = [(''queued'', 0), (''processing'', 0), (''processing'', 33), (''processing'', 66),
        (''completed'', 66), (''completed'', 100), (''failed'', 100)]"
  by (simp add: run_defs proj_simps env_defs)

text \<open>
  C9, as stated: the phase history contains \<^verbatim>\<open>benchmarking\<close> only if the caller requested a
  serial baseline, and otherwise goes from \<^verbatim>\<open>analyzing\<close> to \<^verbatim>\<open>parallel\<close> directly. A job
  request has no field for it, and step 3 of \<^verbatim>\<open>run_render_task\<close> is unconditional: the job
  of a request that sets nothing but the input path goes through \<^verbatim>\<open>benchmarking\<close>.
\<close>

theorem phase_history_always_benchmarks_counterexample:
  "req_workers request_0 = None \<and> req_filter_chain request_0 = None \<and> req_smart request_0 = None
   \<and> req_engine_version request_0 = None
   \<and> fst (create_job srv_env_ok request_0 server_0) = Inr job_1
   \<and> phase_history (snd (run_render_task srv_env_ok ''0a1b2c3d'' ''/srv/uploads/in.mp4'' 8
                            ''unsharp=5:5:1.5:5:5:0.5'' False ''v1'' server_1))
       = [''queued'', ''analyzing'', ''benchmarking'', ''parallel'', ''completed'']"
proof -
  have a: "req_workers request_0 = None" "req_filter_chain request_0 = None"
    "req_smart request_0 = None" "req_engine_version request_0 = None"
    by (simp_all add: request_0_def)
  have c: "phase_history (snd (run_render_task srv_env_ok ''0a1b2c3d'' ''/srv/uploads/in.mp4'' 8
                            ''unsharp=5:5:1.5:5:5:0.5'' False ''v1'' server_1))
       = [''queued'', ''analyzing'', ''benchmarking'', ''parallel'', ''completed'']"
    by (simp add: phase_history_def run_defs proj_simps env_defs)
  show ?thesis by (intro conjI a server_1_job(1) c)
qed

text \<open>
  C9, amended: the phase history of every job whose working directory is there when the
  pipeline starts (it existed, or \<^verbatim>\<open>mkdir\<close> created it) is
  \<^verbatim>\<open>queued, analyzing, completed\<close> (analysis or smart configuration raised),
  \<^verbatim>\<open>queued, analyzing, benchmarking, completed\<close> (the benchmark raised) or
  \<^verbatim>\<open>queued, analyzing, benchmarking, parallel, completed\<close>: a job that reaches \<^verbatim>\<open>parallel\<close>
  has been through \<^verbatim>\<open>benchmarking\<close>, and \<^verbatim>\<open>analyzing\<close> is never followed by \<^verbatim>\<open>parallel\<close>
  directly.
\<close>

theorem phase_history_shapes:
  assumes "tracks jid j0 s" "trail s = [j0]" "phase j0 = ''queued''"
    and "path_join temp_base jid \<in> temp_dirs s \<or> make_dir ev (path_join temp_base jid) = None"
  shows "phase_history (snd (run_render_task ev jid inp w0 f0 smart engine s)) \<in>
           {[''queued'', ''analyzing'', ''completed''],
            [''queued'', ''analyzing'', ''benchmarking'', ''completed''],
            [''queued'', ''analyzing'', ''benchmarking'', ''parallel'', ''completed'']}"
proof -
  note te = task_entry_tracks[OF assms(1), of ev]
  have ok: "fst (task_entry ev jid s) = None" using te(2) assms(4) by simp
  have h0: "phase_history s = [''queued'']" using assms(2,3) by (simp add: phase_history_def)
  have h1: "phase_history (snd (task_entry ev jid s)) = [''queued'', ''analyzing'']"
    using te(3) assms(3) h0 by simp
  have pa: "phase (j0\<lparr>status := ''processing'', phase := ''analyzing''\<rparr>) = ''analyzing''" by simp
  from try_body_outcomes[OF te(1) pa, of ev inp w0 f0 smart engine]
  obtain exc s2 j2 where tb: "try_body ev jid inp w0 f0 smart engine (snd (task_entry ev jid s)) = (exc, s2)"
    and j2: "tracks jid j2 s2"
    and cases: "exc \<noteq> None \<and> phase_history s2 = phase_history (snd (task_entry ev jid s)) \<and> phase j2 = ''analyzing''
            \<or> exc \<noteq> None \<and> phase_history s2 = phase_history (snd (task_entry ev jid s)) @ [''benchmarking'']
                 \<and> phase j2 = ''benchmarking''
            \<or> exc \<noteq> None \<and> phase_history s2 = phase_history (snd (task_entry ev jid s)) @ [''benchmarking'', ''parallel'']
                 \<and> phase j2 = ''parallel''
            \<or> phase_history s2 = phase_history (snd (task_entry ev jid s)) @ [''benchmarking'', ''parallel'', ''completed'']
                 \<and> phase j2 = ''completed'' \<and> status j2 = ''completed'' \<and> progress j2 = 100"
    by blast
  have fin: "phase_history (snd (run_render_task ev jid inp w0 f0 smart engine s))
             = (case exc of None \<Rightarrow> phase_history s2
                | Some e \<Rightarrow> phase_history (except_handler jid e s2))"
    unfolding run_render_task_unfold[OF assms(1) ok] tb
    by (simp add: phase_history_def split: option.splits)
  show ?thesis
  proof (cases exc)
    case None
    thus ?thesis using cases fin h1 by auto
  next
    case (Some e)
    note eh = except_handler_tracks(3)[OF j2, of e]
    from cases show ?thesis
      unfolding fin Some option.case eh h1 by auto
  qed
qed

theorem phase_history_shapes_witness:
  "tracks ''0a1b2c3d'' job_1 server_1 \<and> trail server_1 = [job_1] \<and> phase job_1 = ''queued''
   \<and> make_dir srv_env_parallel_fails (path_join temp_base ''0a1b2c3d'') = None
   \<and> phase_history (snd (run_render_task srv_env_parallel_fails ''0a1b2c3d'' ''/srv/uploads/in.mp4'' 8
                            ''unsharp=5:5:1.5:5:5:0.5'' False ''v1'' server_1)) \<in>
           {[''queued'', ''analyzing'', ''completed''],
            [''queued'', ''analyzing'', ''benchmarking'', ''completed''],
            [''queued'', ''analyzing'', ''benchmarking'', ''parallel'', ''completed'']}"
proof -
  have m: "make_dir srv_env_parallel_fails (path_join temp_base ''0a1b2c3d'') = None"
    by (simp add: srv_env_parallel_fails_def srv_env_ok_def)
  hence d: "path_join temp_base ''0a1b2c3d'' \<in> temp_dirs server_1
            \<or> make_dir srv_env_parallel_fails (path_join temp_base ''0a1b2c3d'') = None"
    by simp
  from phase_history_shapes[OF server_1_job(5,3,4) d, of "''/srv/uploads/in.mp4''" 8
          "''unsharp=5:5:1.5:5:5:0.5''" False "''v1''"]
        server_1_job(3,4,5) m
  show ?thesis by blast
qed

section \<open>Job submission\<close>

lemma int_or_cpu:
  assumes "\<forall>c. cpu = Some c \<longrightarrow> 1 \<le> c"
  shows "int_or cpu 4 = (case cpu of Some c \<Rightarrow> c | None \<Rightarrow> 4)" "1 \<le> int_or cpu 4"
  using assms by (auto simp: int_or_def split: option.splits)

text \<open>
  C10: when the input path resolves, the engine version is available and the CPU count is
  undetectable or at least 1, \<^verbatim>\<open>create_job\<close> answers HTTP 400 \<^verbatim>\<open>workers must be >= 1\<close> exactly
  for a negative requested worker count; a requested count of 0 is replaced by the CPU count
  (by 4 when it is undetectable); and the record of every job it creates, which is the one it
  stores, has a worker count of at least 1.
\<close>

theorem create_job_workers:
  assumes "resolve_input_path ev (req_input_path job_req) = Inr (rp, dp)"
    and "\<not> (str_or (req_engine_version job_req) ''v1'' = ''v2'' \<and> \<not> v2_available ev)"
    and "\<forall>c. cpu_count ev = Some c \<longrightarrow> 1 \<le> c"
  shows "(fst (create_job ev job_req s) = Inl (HTTPException 400 ''workers must be >= 1'')
            \<longleftrightarrow> (\<exists>w. req_workers job_req = Some w \<and> w < 0))
       \<and> (req_workers job_req = Some 0 \<longrightarrow>
            (\<exists>j. fst (create_job ev job_req s) = Inr j \<and>
                 workers j = (case cpu_count ev of Some c \<Rightarrow> c | None \<Rightarrow> 4)))
       \<and> (\<forall>j. fst (create_job ev job_req s) = Inr j \<longrightarrow>
             1 \<le> workers j \<and> jobs (snd (create_job ev job_req s)) (new_job_id ev) = Some j)"
proof -
  note cpu = int_or_cpu[OF assms(3)]
  define w1 where "w1 = int_or (req_workers job_req) (int_or (cpu_count ev) 4)"
  have neg: "w1 < 1 \<longleftrightarrow> (\<exists>w. req_workers job_req = Some w \<and> w < 0)"
    using cpu(2) by (auto simp: w1_def int_or_def split: option.splits)
  have zero: "req_workers job_req = Some 0 \<Longrightarrow> w1 = (case cpu_count ev of Some c \<Rightarrow> c | None \<Rightarrow> 4)"
    using cpu(1) by (simp add: w1_def int_or_def)
  have cj: "fst (create_job ev job_req s) =
              (if w1 < 1 then Inl (HTTPException 400 ''workers must be >= 1'')
               else Inr \<lparr>job_id = new_job_id ev, status = ''queued'', phase = ''queued'', progress = 0,
                         input = dp, workers = w1,
                         filter_chain = str_or (req_filter_chain job_req) ''unsharp=5:5:1.5:5:5:0.5'',
                         created_at = time_now ev, smart_config = None, comparison_report = None,
                         engine_version = str_or (req_engine_version job_req) ''v1'',
                         projected_serial_time = None, job_output = None, job_duration = None,
                         job_error = None\<rparr>)"
    and st: "\<not> w1 < 1 \<Longrightarrow> jobs (snd (create_job ev job_req s)) (new_job_id ev) =
               Some \<lparr>job_id = new_job_id ev, status = ''queued'', phase = ''queued'', progress = 0,
                         input = dp, workers = w1,
                         filter_chain = str_or (req_filter_chain job_req) ''unsharp=5:5:1.5:5:5:0.5'',
                         created_at = time_now ev, smart_config = None, comparison_report = None,
                         engine_version = str_or (req_engine_version job_req) ''v1'',
                         projected_serial_time = None, job_output = None, job_duration = None,
                         job_error = None\<rparr>"
    using assms(1,2) by (auto simp: create_job_def Let_def w1_def)
  have 1: "fst (create_job ev job_req s) = Inl (HTTPException 400 ''workers must be >= 1'')
            \<longleftrightarrow> (\<exists>w. req_workers job_req = Some w \<and> w < 0)"
    unfolding cj using neg by auto
  have 2: "req_workers job_req = Some 0 \<longrightarrow>
            (\<exists>j. fst (create_job ev job_req s) = Inr j \<and>
                 workers j = (case cpu_count ev of Some c \<Rightarrow> c | None \<Rightarrow> 4))"
  proof
    assume z: "req_workers job_req = Some 0"
    hence "\<not> w1 < 1" using neg by simp
    thus "\<exists>j. fst (create_job ev job_req s) = Inr j \<and>
                 workers j = (case cpu_count ev of Some c \<Rightarrow> c | None \<Rightarrow> 4)"
      unfolding cj using zero[OF z] by simp
  qed
  have 3: "\<forall>j. fst (create_job ev job_req s) = Inr j \<longrightarrow>
             1 \<le> workers j \<and> jobs (snd (create_job ev job_req s)) (new_job_id ev) = Some j"
  proof (intro allI impI)
    fix j assume j: "fst (create_job ev job_req s) = Inr j"
    hence w: "\<not> w1 < 1" unfolding cj by (auto split: if_splits)
    from j st[OF w] show "1 \<le> workers j \<and> jobs (snd (create_job ev job_req s)) (new_job_id ev) = Some j"
      unfolding cj using w by auto
  qed
  show ?thesis using 1 2 3 by blast
qed

theorem create_job_workers_witness:
  "resolve_input_path srv_env_ok (req_input_path (request_0\<lparr>req_workers := Some 0\<rparr>))
     = Inr (''/srv/uploads/in.mp4'', ''uploads/in.mp4'')
   \<and> \<not> (str_or (req_engine_version (request_0\<lparr>req_workers := Some 0\<rparr>)) ''v1'' = ''v2''
          \<and> \<not> v2_available srv_env_ok)
   \<and> cpu_count srv_env_ok = Some 8
   \<and> (\<exists>j. fst (create_job srv_env_ok (request_0\<lparr>req_workers := Some 0\<rparr>) server_0) = Inr j
          \<and> workers j = 8)
   \<and> fst (create_job srv_env_ok (request_0\<lparr>req_workers := Some (- 1)\<rparr>) server_0)
       = Inl (HTTPException 400 ''workers must be >= 1'')"
proof -
  have a: "resolve_input_path srv_env_ok (req_input_path (request_0\<lparr>req_workers := Some 0\<rparr>))
     = Inr (''/srv/uploads/in.mp4'', ''uploads/in.mp4'')"
    by (simp add: srv_env_ok_def request_0_def)
  have b: "\<not> (str_or (req_engine_version (request_0\<lparr>req_workers := Some 0\<rparr>)) ''v1'' = ''v2''
          \<and> \<not> v2_available srv_env_ok)"
    by (simp add: srv_env_ok_def request_0_def str_or_def)
  have c: "\<forall>c. cpu_count srv_env_ok = Some c \<longrightarrow> 1 \<le> c"
    by (simp add: srv_env_ok_def)
  have d: "cpu_count srv_env_ok = Some 8" "req_workers (request_0\<lparr>req_workers := Some 0\<rparr>) = Some 0"
    by (simp_all add: srv_env_ok_def)
  have a': "resolve_input_path srv_env_ok (req_input_path (request_0\<lparr>req_workers := Some (- 1)\<rparr>))
     = Inr (''/srv/uploads/in.mp4'', ''uploads/in.mp4'')"
    by (simp add: srv_env_ok_def request_0_def)
  have b': "\<not> (str_or (req_engine_version (request_0\<lparr>req_workers := Some (- 1)\<rparr>)) ''v1'' = ''v2''
          \<and> \<not> v2_available srv_env_ok)"
    by (simp add: srv_env_ok_def request_0_def str_or_def)
  from create_job_workers[OF a b c, of server_0] d
  have e: "\<exists>j. fst (create_job srv_env_ok (request_0\<lparr>req_workers := Some 0\<rparr>) server_0) = Inr j
          \<and> workers j = 8" by simp
  from create_job_workers[OF a' b' c, of server_0]
  have f: "fst (create_job srv_env_ok (request_0\<lparr>req_workers := Some (- 1)\<rparr>) server_0)
       = Inl (HTTPException 400 ''workers must be >= 1'')" by simp
  show ?thesis by (intro conjI a b d(1) e f)
qed

end
